theory Spec2Isabelle
  imports Main
begin

section \<open>Catalog, calls and diagnostics\<close>

text \<open>
  The schema catalog of the sqlboiler driver: \<open>drivers.Column\<close>, \<open>drivers.Table\<close>
  and \<open>drivers.DBInfo\<close>. The checker reads the column name, the driver (Go) type and
  the database type; the remaining fields are carried along unchanged.
\<close>

record Column =
  Name :: string
  Type :: string
  DBType :: string
  UDTName :: string
  FullDBType :: string
  Nullable :: bool
  Unique :: bool

record Table =
  SchemaName :: string
  TableName :: string
  Columns :: "Column list"

record DBInfo =
  Tables :: "Table list"

text \<open>\<open>token.Position\<close> and the \<open>Call\<close> record of the call-site resolver.\<close>

record Position =
  Filename :: string
  Line :: int
  PosColumn :: int

record Call =
  SQL :: string
  ArgTypes :: "string list"
  Package :: string
  Pos :: Position

text \<open>
  The kinds of identifier errors are the untyped Go constants \<open>Unknown = iota\<close> and
  \<open>Ambiguous\<close>; a struct literal that leaves \<open>Kind\<close> out holds the zero value \<open>0\<close>.
\<close>

definition Unknown :: int where
  "Unknown = 0"

definition Ambiguous :: int where
  "Ambiguous = 1"

record IdentErr =
  ie_Kind :: int
  ie_Schema :: string
  ie_Table :: string
  ie_Column :: string
  ie_Location :: int
  ie_Fn :: Call

record TypeErr =
  te_Schema :: string
  te_Table :: string
  te_Column :: string
  te_CallType :: string
  te_DriverType :: string
  te_DBType :: string
  te_Parameter :: int
  te_Location :: int
  te_Fn :: Call

text \<open>
  The values of Go's \<open>error\<close> interface that the checker produces: the three
  diagnostic structs and the generic error of \<open>fmt.Errorf\<close>.
\<close>

datatype err =
    ErrIdent IdentErr
  | ErrType TypeErr
  | ErrParse string Call
  | ErrGeneric string

text \<open>A run-time panic of the Go program ends the whole check.\<close>

datatype panic =
    IndexOutOfRange
  | NilDereference
  | TypeAssertion
  | PanicMsg string

section \<open>Scope\<close>

record outputColRef =
  ocr_name :: string
  ocr_col :: "Column option"

text \<open>
  A \<open>*drivers.Table\<close> in scope points into the immutable catalog or at a pseudo-table
  built once and never written again, so the stack holds the tables themselves. A
  \<open>*drivers.Column\<close> is \<open>None\<close> for the nil pointer.
\<close>

record Scope =
  info :: DBInfo
  tables :: "Table list"
  aliases :: "string list"
  outputNames :: "outputColRef list"

definition outputColsToPseudoTable :: "string \<Rightarrow> outputColRef list \<Rightarrow> Table" where
  "outputColsToPseudoTable nm refs =
     \<lparr>SchemaName = [], TableName = nm,
      Columns = map (\<lambda>r.
        (case ocr_col r of
           None \<Rightarrow> \<lparr>Name = ocr_name r, Type = [], DBType = [], UDTName = [], FullDBType = [],
                     Nullable = False, Unique = False\<rparr>
         | Some c \<Rightarrow> c\<lparr>Name := ocr_name r\<rparr>)) refs\<rparr>"

definition NewScope :: "DBInfo \<Rightarrow> Scope" where
  "NewScope i = \<lparr>info = i, tables = [], aliases = [], outputNames = []\<rparr>"

definition clone :: "Scope \<Rightarrow> Scope" where
  "clone s = \<lparr>info = info s, tables = tables s, aliases = aliases s,
              outputNames = outputNames s\<rparr>"

text \<open>The loop of \<open>pushTable\<close> over the catalog: the first table that matches.\<close>

fun lookupTable :: "string \<Rightarrow> string \<Rightarrow> Table list \<Rightarrow> Table option" where
  "lookupTable schema table [] = None"
| "lookupTable schema table (t # ts) =
     (if schema \<noteq> [] \<and> SchemaName t \<noteq> schema then lookupTable schema table ts
      else if TableName t = table then Some t
      else lookupTable schema table ts)"

definition pushTable :: "Scope \<Rightarrow> string \<Rightarrow> string \<Rightarrow> string \<Rightarrow> bool \<times> Scope" where
  "pushTable s schema table alias =
     (case lookupTable schema table (Tables (info s)) of
        None \<Rightarrow> (False, s)
      | Some t \<Rightarrow> (True, s\<lparr>aliases := aliases s @ [alias], tables := tables s @ [t]\<rparr>))"

definition pushPseudoTable :: "Scope \<Rightarrow> string \<Rightarrow> Table \<Rightarrow> Scope" where
  "pushPseudoTable s alias data = s\<lparr>aliases := aliases s @ [alias], tables := tables s @ [data]\<rparr>"

text \<open>
  \<open>popTable\<close> evaluates \<open>s.tables[len(s.tables)-1]\<close> and \<open>s.aliases[len(s.aliases)-1]\<close>
  for its debug line before it reslices, so it panics on an empty stack.
\<close>

definition popTable :: "Scope \<Rightarrow> panic + Scope" where
  "popTable s =
     (if tables s = [] \<or> aliases s = [] then Inl IndexOutOfRange
      else Inr (s\<lparr>aliases := butlast (aliases s), tables := butlast (tables s)\<rparr>))"

definition pushOutputName :: "Scope \<Rightarrow> string \<Rightarrow> Column option \<Rightarrow> Scope" where
  "pushOutputName s nm c = s\<lparr>outputNames := outputNames s @ [\<lparr>ocr_name = nm, ocr_col = c\<rparr>]\<rparr>"

definition popOutputName :: "Scope \<Rightarrow> panic + Scope" where
  "popOutputName s =
     (if outputNames s = [] then Inl IndexOutOfRange
      else Inr (s\<lparr>outputNames := butlast (outputNames s)\<rparr>))"

definition scopeRetOk :: int where
  "scopeRetOk = 0"

definition scopeRetAmbiguous :: int where
  "scopeRetAmbiguous = 1"

definition scopeRetUnknown :: int where
  "scopeRetUnknown = 2"

text \<open>
  The first loop of \<open>get\<close> (table name given) walks \<open>s.tables\<close> by index and reads
  \<open>s.aliases[i]\<close>: reading past the end of the aliases is a panic.
\<close>

fun findInScope :: "string \<Rightarrow> string \<Rightarrow> Table list \<Rightarrow> string list \<Rightarrow> panic + Table option" where
  "findInScope schema table [] als = Inr None"
| "findInScope schema table (t # ts) [] = Inl IndexOutOfRange"
| "findInScope schema table (t # ts) (a # als) =
     (if a = table then Inr (Some t)
      else if schema \<noteq> [] \<and> SchemaName t \<noteq> schema then findInScope schema table ts als
      else if TableName t = table then Inr (Some t)
      else findInScope schema table ts als)"

fun findColumn :: "string \<Rightarrow> Column list \<Rightarrow> Column option" where
  "findColumn column [] = None"
| "findColumn column (c # cs) = (if Name c = column then Some c else findColumn column cs)"

text \<open>
  The second loop of \<open>get\<close> (no table name): the state is \<open>(col, ret)\<close>; \<open>None\<close> is
  the early \<open>return nil, scopeRetAmbiguous\<close>.
\<close>

fun searchColumns :: "string \<Rightarrow> Column list \<Rightarrow> Column option \<times> int \<Rightarrow> (Column option \<times> int) option" where
  "searchColumns column [] st = Some st"
| "searchColumns column (c # cs) (col, ret) =
     (if Name c = column then
        (if ret = scopeRetOk then None
         else searchColumns column cs (Some c, scopeRetOk))
      else searchColumns column cs (col, ret))"

fun searchTables :: "string \<Rightarrow> Table list \<Rightarrow> Column option \<times> int \<Rightarrow> (Column option \<times> int) option" where
  "searchTables column [] st = Some st"
| "searchTables column (t # ts) st =
     (case searchColumns column (Columns t) st of
        None \<Rightarrow> None
      | Some st' \<Rightarrow> searchTables column ts st')"

fun findOutputName :: "string \<Rightarrow> outputColRef list \<Rightarrow> outputColRef option" where
  "findOutputName column [] = None"
| "findOutputName column (x # xs) = (if column = ocr_name x then Some x else findOutputName column xs)"

definition get :: "Scope \<Rightarrow> string \<Rightarrow> string \<Rightarrow> string \<Rightarrow> panic + (Column option \<times> int)" where
  "get s schema table column =
     (if table \<noteq> [] then
        (case findInScope schema table (tables s) (aliases s) of
           Inl p \<Rightarrow> Inl p
         | Inr None \<Rightarrow> Inr (None, scopeRetUnknown)
         | Inr (Some inScope) \<Rightarrow>
             (case findColumn column (Columns inScope) of
                Some c \<Rightarrow> Inr (Some c, scopeRetOk)
              | None \<Rightarrow> Inr (None, scopeRetUnknown)))
      else
        (case searchTables column (tables s) (None, scopeRetUnknown) of
           None \<Rightarrow> Inr (None, scopeRetAmbiguous)
         | Some (col, ret) \<Rightarrow>
             (case findOutputName column (outputNames s) of
                Some x \<Rightarrow> Inr (ocr_col x, scopeRetOk)
              | None \<Rightarrow> Inr (col, ret))))"

definition has :: "Scope \<Rightarrow> string \<Rightarrow> string \<Rightarrow> string \<Rightarrow> panic + int" where
  "has s schema table column =
     (case get s schema table column of Inl p \<Rightarrow> Inl p | Inr (c, ret) \<Rightarrow> Inr ret)"

section \<open>Fixtures\<close>

text \<open>
  The catalog of the end-to-end scenarios: the tables of \<open>TestTypeErrors\<close> and of
  \<open>TestBugNestSelect\<close> in \<open>psql_check_test.go\<close>.
\<close>

definition intColumn :: "string \<Rightarrow> Column" where
  "intColumn n = \<lparr>Name = n, Type = ''int'', DBType = ''integer'', UDTName = ''int4'',
     FullDBType = ''int4'', Nullable = False, Unique = True\<rparr>"

definition textColumn :: "string \<Rightarrow> Column" where
  "textColumn n = \<lparr>Name = n, Type = ''string'', DBType = ''text'', UDTName = ''text'',
     FullDBType = ''text'', Nullable = False, Unique = False\<rparr>"

definition usersTable :: Table where
  "usersTable = \<lparr>SchemaName = [], TableName = ''users'',
     Columns = [intColumn ''id'', textColumn ''name'']\<rparr>"

definition videosTable :: Table where
  "videosTable = \<lparr>SchemaName = [], TableName = ''videos'',
     Columns = [intColumn ''id'', textColumn ''video'']\<rparr>"

definition commentsTable :: Table where
  "commentsTable = \<lparr>SchemaName = [], TableName = ''comments'',
     Columns = [intColumn ''id'',
       \<lparr>Name = ''comment'', Type = ''null.String'', DBType = ''text'', UDTName = ''text'',
        FullDBType = ''text'', Nullable = True, Unique = False\<rparr>]\<rparr>"

definition tagVideosTable :: Table where
  "tagVideosTable = \<lparr>SchemaName = [], TableName = ''tag_videos'',
     Columns = [intColumn ''tag_id'', intColumn ''video_id'']\<rparr>"

definition testCatalog :: DBInfo where
  "testCatalog = \<lparr>Tables = [usersTable, videosTable, commentsTable, tagVideosTable]\<rparr>"

text \<open>The scope inside \<open>select ... from users as u\<close>.\<close>

definition aliasedUsersScope :: Scope where
  "aliasedUsersScope = \<lparr>info = testCatalog, tables = [usersTable], aliases = [''u''],
     outputNames = []\<rparr>"

text \<open>The child scope of a lateral \<open>(select ... from videos as users)\<close> under \<open>from users\<close>.\<close>

definition shadowScope :: Scope where
  "shadowScope = \<lparr>info = testCatalog, tables = [usersTable, videosTable],
     aliases = ['''', ''users''], outputNames = []\<rparr>"

text \<open>The scope at the \<open>order by\<close> of \<open>select name as id from users order by id\<close>.\<close>

definition outputNameScope :: Scope where
  "outputNameScope = \<lparr>info = testCatalog, tables = [usersTable], aliases = [''''],
     outputNames = [\<lparr>ocr_name = ''id'', ocr_col = Some (textColumn ''name'')\<rparr>]\<rparr>"

section \<open>The lookup rules as the specification words them\<close>

text \<open>
  Specification, section 4.3: with a table name, find the first \<open>tables[i]\<close> where
  \<open>aliases[i] == table\<close>; if none, find the first where schema (if provided) and
  table name match directly.
\<close>

definition spec_findInScope :: "string \<Rightarrow> string \<Rightarrow> Table list \<Rightarrow> string list \<Rightarrow> Table option" where
  "spec_findInScope schema table ts als =
     (case find (\<lambda>(t, a). a = table) (zip ts als) of
        Some (t, a) \<Rightarrow> Some t
      | None \<Rightarrow> find (\<lambda>t. (schema = [] \<or> SchemaName t = schema) \<and> TableName t = table) ts)"

definition spec_get_named :: "Scope \<Rightarrow> string \<Rightarrow> string \<Rightarrow> string \<Rightarrow> Column option \<times> int" where
  "spec_get_named s schema table column =
     (case spec_findInScope schema table (tables s) (aliases s) of
        None \<Rightarrow> (None, scopeRetUnknown)
      | Some t \<Rightarrow>
          (case findColumn column (Columns t) of
             Some c \<Rightarrow> (Some c, scopeRetOk)
           | None \<Rightarrow> (None, scopeRetUnknown)))"

section \<open>Parse tree\<close>

text \<open>
  The nodes of \<open>pg_query_go/nodes\<close> that the checker looks at, with the fields it
  reads. A nil \<open>Node\<close> interface is \<open>NilNode\<close>; a nil pointer field is \<open>None\<close>. A
  \<open>List\<close> is the list of its \<open>Items\<close>. Every node kind the checker has no case for is
  \<open>OtherNode\<close> with its children.
\<close>

record Alias =
  Aliasname :: "string option"

record RangeVar =
  Schemaname :: "string option"
  Relname :: "string option"
  RvAlias :: "Alias option"
  RvLocation :: int

datatype Node =
    NilNode
  | RawStmt Node
  | SelectStmt "Node option" "Node option" "Node list" Node Node "Node list" "Node list" "Node list"
    \<comment> \<open>\<open>Larg\<close>, \<open>Rarg\<close>, \<open>FromClause\<close>, \<open>WhereClause\<close>, \<open>HavingClause\<close>, \<open>TargetList\<close>,
        \<open>GroupClause\<close>, \<open>SortClause\<close>\<close>
  | UpdateStmt "RangeVar option" "Node list" Node
    \<comment> \<open>\<open>Relation\<close>, \<open>TargetList\<close>, \<open>WhereClause\<close>\<close>
  | InsertStmt "RangeVar option" "Node list"
    \<comment> \<open>\<open>Relation\<close>, \<open>Cols\<close>\<close>
  | DeleteStmt "RangeVar option" Node
    \<comment> \<open>\<open>Relation\<close>, \<open>WhereClause\<close>\<close>
  | SortBy Node
  | FuncCall "Node list"
  | A_Expr Node Node
    \<comment> \<open>\<open>Lexpr\<close>, \<open>Rexpr\<close>\<close>
  | BoolExpr "Node list"
  | ColumnRef "Node list" int
    \<comment> \<open>\<open>Fields\<close>, \<open>Location\<close>\<close>
  | String string
  | A_Star
  | SubLink Node
  | ResTarget "string option" Node int
    \<comment> \<open>\<open>Name\<close>, \<open>Val\<close>, \<open>Location\<close>\<close>
  | RangeVarNode RangeVar
  | JoinExpr Node Node Node
    \<comment> \<open>\<open>Larg\<close>, \<open>Rarg\<close>, \<open>Quals\<close>\<close>
  | RangeSubselect bool Node "Alias option"
    \<comment> \<open>\<open>Lateral\<close>, \<open>Subquery\<close>, \<open>Alias\<close>\<close>
  | ParamRef int int
    \<comment> \<open>\<open>Number\<close>, \<open>Location\<close>\<close>
  | OtherNode "Node list"

section \<open>Library functions of Go used by the type check\<close>

text \<open>\<open>strings.Split(s, sep)\<close> for a separator of one byte.\<close>

fun strings_Split :: "string \<Rightarrow> char \<Rightarrow> string list" where
  "strings_Split [] sep = [[]]"
| "strings_Split (x # xs) sep =
     (if x = sep then [] # strings_Split xs sep
      else (case strings_Split xs sep of
              [] \<Rightarrow> [[x]]
            | y # ys \<Rightarrow> (x # y) # ys))"

text \<open>\<open>strings.Trim(s, cutset)\<close>: leading and trailing bytes of the cutset removed.\<close>

definition strings_Trim :: "string \<Rightarrow> string \<Rightarrow> string" where
  "strings_Trim s cutset =
     rev (dropWhile (\<lambda>c. c \<in> set cutset) (rev (dropWhile (\<lambda>c. c \<in> set cutset) s)))"

text \<open>
  \<open>path.Base\<close>: the last element of the path, trailing slashes removed first; \<open>.\<close> for
  the empty path and \<open>/\<close> for a path of slashes only.
\<close>

definition path_Base :: "string \<Rightarrow> string" where
  "path_Base p =
     (if p = [] then ''.''
      else (let stripped = rev (dropWhile (\<lambda>c. c = CHR ''/'') (rev p));
                lst = rev (takeWhile (\<lambda>c. c \<noteq> CHR ''/'') (rev stripped))
            in if lst = [] then ''/'' else lst))"

text \<open>
  \<open>path.Clean\<close> by its documented rules: slashes collapsed, \<open>.\<close> elements dropped, an
  inner \<open>..\<close> dropped with the element before it, \<open>..\<close> at the start of a rooted path
  dropped; the empty result is \<open>.\<close>.
\<close>

fun cleanElems :: "bool \<Rightarrow> string list \<Rightarrow> string list \<Rightarrow> string list" where
  "cleanElems rooted out [] = out"
| "cleanElems rooted out (e # es) =
     (if e = [] \<or> e = ''.'' then cleanElems rooted out es
      else if e = ''..'' then
        (if out \<noteq> [] \<and> last out \<noteq> ''..'' then cleanElems rooted (butlast out) es
         else if rooted then cleanElems rooted out es
         else cleanElems rooted (out @ [e]) es)
      else cleanElems rooted (out @ [e]) es)"

fun joinSlash :: "string list \<Rightarrow> string" where
  "joinSlash [] = []"
| "joinSlash [e] = e"
| "joinSlash (e # es) = e @ ''/'' @ joinSlash es"

definition path_Clean :: "string \<Rightarrow> string" where
  "path_Clean p =
     (let rooted = (p \<noteq> [] \<and> hd p = CHR ''/'');
          body = joinSlash (cleanElems rooted [] (strings_Split p (CHR ''/'')));
          res = (if rooted then ''/'' @ body else body)
      in if res = [] then ''.'' else res)"

text \<open>\<open>path.Dir\<close>: the path up to and including its last slash, cleaned.\<close>

definition path_Dir :: "string \<Rightarrow> string" where
  "path_Dir p = path_Clean (rev (dropWhile (\<lambda>c. c \<noteq> CHR ''/'') (rev p)))"

text \<open>\<open>path.Join\<close>: the non-empty elements joined by slashes and cleaned; empty if none.\<close>

definition path_Join :: "string list \<Rightarrow> string" where
  "path_Join elems =
     (let ne = filter (\<lambda>e. e \<noteq> []) elems
      in if ne = [] then [] else path_Clean (joinSlash ne))"

section \<open>Type check\<close>

text \<open>
  \<open>importers.Set\<close> and the field \<open>BasedOnType\<close> of \<open>importers.Collection\<close>; reading a
  Go map at a missing key gives the zero \<open>Set\<close>.
\<close>

record ImportSet =
  Standard :: "string list"
  ThirdParty :: "string list"

record State =
  st_DBInfo :: DBInfo
  BasedOnType :: "string \<rightharpoonup> ImportSet"

definition importsBasedOnType :: "State \<Rightarrow> string \<Rightarrow> ImportSet" where
  "importsBasedOnType s ty =
     (case BasedOnType s ty of
        None \<Rightarrow> \<lparr>Standard = [], ThirdParty = []\<rparr>
      | Some i \<Rightarrow> i)"

text \<open>
  The qualification parts of a column reference, as \<open>checkCallRecurse\<close> and
  \<open>typeCheck\<close> both compute them: schema, table and the offset of the column field.
\<close>

definition fieldsPrefix :: "Node list \<Rightarrow> panic + (string \<times> string \<times> nat)" where
  "fieldsPrefix items =
     (if length items = 3 then
        (case items ! 0 of
           String schema \<Rightarrow>
             (case items ! 1 of
                String table \<Rightarrow> Inr (schema, table, 2)
              | _ \<Rightarrow> Inl TypeAssertion)
         | _ \<Rightarrow> Inl TypeAssertion)
      else if length items = 2 then
        (case items ! 0 of
           String table \<Rightarrow> Inr ([], table, 1)
         | _ \<Rightarrow> Inl TypeAssertion)
      else Inr ([], [], 0))"

text \<open>The loop of \<open>typeCheck\<close> over the imports: the value of \<open>imp\<close> after it.\<close>

fun findImport :: "string list \<Rightarrow> string \<Rightarrow> string list \<Rightarrow> string" where
  "findImport splits ty [] = []"
| "findImport splits ty (i # is) =
     (let noQuotes = strings_Trim i [CHR 0x22]
      in if splits ! 1 \<noteq> path_Base noQuotes then findImport splits ty is
         else path_Join [path_Dir noQuotes, ty])"

definition mkTypeErr :: "string \<Rightarrow> string \<Rightarrow> string \<Rightarrow> string \<Rightarrow> Column \<Rightarrow> int \<Rightarrow> int \<Rightarrow> Call \<Rightarrow> TypeErr" where
  "mkTypeErr schema table column callType col number location fn =
     \<lparr>te_Schema = schema, te_Table = table, te_Column = column, te_CallType = callType,
      te_DriverType = Type col, te_DBType = DBType col, te_Parameter = number,
      te_Location = location, te_Fn = fn\<rparr>"

text \<open>The part of \<open>typeCheck\<close> after the column reference and the parameter are found.\<close>

definition typeCheckPair :: "State \<Rightarrow> Call \<Rightarrow> Scope \<Rightarrow> Node list \<Rightarrow> int \<Rightarrow> int \<Rightarrow> panic + err option" where
  "typeCheckPair s fn scope items number location =
     (case fieldsPrefix items of
        Inl p \<Rightarrow> Inl p
      | Inr (schema, table, offset) \<Rightarrow>
          if length items \<le> offset then Inl IndexOutOfRange
          else
            (case items ! offset of
               String column \<Rightarrow>
                 (case get scope schema table column of
                    Inl p \<Rightarrow> Inl p
                  | Inr (colp, ret) \<Rightarrow>
                      if ret \<noteq> scopeRetOk then Inr None
                      else
                        (case colp of
                           None \<Rightarrow> Inr None
                         | Some col \<Rightarrow>
                             if number - 1 \<ge> int (length (ArgTypes fn)) then
                               Inr (Some (ErrType
                                 (mkTypeErr schema table column ''<none>'' col number location fn)))
                             else if number - 1 < 0 then Inl IndexOutOfRange
                             else
                               (let argType = ArgTypes fn ! nat (number - 1);
                                    normalizedType = Type col;
                                    splits = strings_Split (Type col) (CHR ''.'')
                                in if length splits > 1
                                      \<and> findImport splits (Type col)
                                           (Standard (importsBasedOnType s (Type col))
                                            @ ThirdParty (importsBasedOnType s (Type col))) = []
                                   then Inr (Some (ErrGeneric
                                     (''failed to lookup package for driver type: '' @ Type col)))
                                   else if argType \<noteq> normalizedType then
                                     Inr (Some (ErrType
                                       (mkTypeErr schema table column argType col number location fn)))
                                   else Inr None)))
             | _ \<Rightarrow>
                 if length items \<le> 1 then Inl IndexOutOfRange
                 else Inl (PanicMsg ''type check against weird node type'')))"

text \<open>
  \<open>typeCheck\<close>: \<open>c\<close> is the right operand if that is a column reference, else the
  left one; likewise \<open>p\<close> for parameter references.
\<close>

definition typeCheck :: "State \<Rightarrow> Call \<Rightarrow> Scope \<Rightarrow> Node \<Rightarrow> Node \<Rightarrow> panic + err option" where
  "typeCheck s fn scope lhs rhs =
     (if lhs = NilNode \<or> rhs = NilNode then Inr None
      else
        (let c = (case rhs of ColumnRef items loc \<Rightarrow> Some items
                  | _ \<Rightarrow> (case lhs of ColumnRef items loc \<Rightarrow> Some items | _ \<Rightarrow> None));
             p = (case rhs of ParamRef number loc \<Rightarrow> Some (number, loc)
                  | _ \<Rightarrow> (case lhs of ParamRef number loc \<Rightarrow> Some (number, loc) | _ \<Rightarrow> None))
         in case c of
              None \<Rightarrow> Inr None
            | Some items \<Rightarrow>
                (case p of
                   None \<Rightarrow> Inr None
                 | Some (number, location) \<Rightarrow> typeCheckPair s fn scope items number location)))"

section \<open>SQL checker\<close>

text \<open>
  An \<open>IdentErr\<close> literal that names no \<open>Kind\<close>: the field holds the zero value.
\<close>

definition identErrNoKind :: "string \<Rightarrow> string \<Rightarrow> string \<Rightarrow> int \<Rightarrow> Call \<Rightarrow> err" where
  "identErrNoKind schema table column location fn =
     ErrIdent \<lparr>ie_Kind = 0, ie_Schema = schema, ie_Table = table, ie_Column = column,
       ie_Location = location, ie_Fn = fn\<rparr>"

text \<open>
  Pushing the table of a \<open>RangeVar\<close>: the closure \<open>addTable\<close> of \<open>checkSelect\<close> and the
  same lines at the head of \<open>checkUpdate\<close>, \<open>checkInsert\<close> and \<open>checkDelete\<close>. The
  result is the increment of \<open>nTables\<close>, the errors appended and the scope.
\<close>

definition addTable :: "Call \<Rightarrow> Scope \<Rightarrow> RangeVar \<Rightarrow> panic + (nat \<times> err list \<times> Scope)" where
  "addTable fn scope r =
     (case Relname r of
        None \<Rightarrow> Inl NilDereference
      | Some table \<Rightarrow>
          (let schema = (case Schemaname r of None \<Rightarrow> [] | Some s \<Rightarrow> s)
           in case (case RvAlias r of
                      None \<Rightarrow> Inr []
                    | Some a \<Rightarrow> (case Aliasname a of
                                  None \<Rightarrow> Inl NilDereference
                                | Some n \<Rightarrow> Inr n)) of
                Inl p \<Rightarrow> Inl p
              | Inr alias \<Rightarrow>
                  (case pushTable scope schema table alias of
                     (False, scope') \<Rightarrow>
                       Inr (0, [identErrNoKind schema table [] (RvLocation r) fn], scope')
                   | (True, scope') \<Rightarrow> Inr (1, [], scope'))))"

text \<open>The loops \<open>for i := 0; i < nTables; i++ { scope.popTable() }\<close> and
  \<open>for range addRefs { scope.popOutputName() }\<close>.\<close>

fun popTables :: "nat \<Rightarrow> Scope \<Rightarrow> panic + Scope" where
  "popTables 0 scope = Inr scope"
| "popTables (Suc n) scope =
     (case popTable scope of Inl p \<Rightarrow> Inl p | Inr scope' \<Rightarrow> popTables n scope')"

fun popOutputNames :: "nat \<Rightarrow> Scope \<Rightarrow> panic + Scope" where
  "popOutputNames 0 scope = Inr scope"
| "popOutputNames (Suc n) scope =
     (case popOutputName scope of Inl p \<Rightarrow> Inl p | Inr scope' \<Rightarrow> popOutputNames n scope')"

fun pushOutputNames :: "Scope \<Rightarrow> outputColRef list \<Rightarrow> Scope" where
  "pushOutputNames scope [] = scope"
| "pushOutputNames scope (r # rs) = pushOutputNames (pushOutputName scope (ocr_name r) (ocr_col r)) rs"

text \<open>
  The \<open>ColumnRef\<close> case of \<open>checkCallRecurse\<close>. The panic of its default branch
  prints the type of \<open>Items[1]\<close>, so it reads that item first; the same holds in
  \<open>typeCheck\<close>.
\<close>

definition checkColumnRef :: "Call \<Rightarrow> Scope \<Rightarrow> Node list \<Rightarrow> int \<Rightarrow> panic + err list" where
  "checkColumnRef fn scope items location =
     (case fieldsPrefix items of
        Inl p \<Rightarrow> Inl p
      | Inr (schema, table, offset) \<Rightarrow>
          if length items \<le> offset then Inl IndexOutOfRange
          else
            (case items ! offset of
               String column \<Rightarrow>
                 (case has scope schema table column of
                    Inl p \<Rightarrow> Inl p
                  | Inr ret \<Rightarrow>
                      (let kind = (if ret = scopeRetUnknown then Unknown
                                   else if ret = scopeRetAmbiguous then Ambiguous
                                   else 0)
                       in if ret \<noteq> scopeRetOk then
                            Inr [ErrIdent \<lparr>ie_Kind = kind, ie_Schema = schema, ie_Table = table,
                                   ie_Column = column, ie_Location = location, ie_Fn = fn\<rparr>]
                          else Inr []))
             | A_Star \<Rightarrow> Inr []
             | _ \<Rightarrow>
                 if length items \<le> 1 then Inl IndexOutOfRange
                 else Inl (PanicMsg ''unknown column reference field'')))"

text \<open>The name test of the \<open>ResTarget\<close> case of \<open>checkCallRecurse\<close>.\<close>

definition checkResTargetName :: "Call \<Rightarrow> Scope \<Rightarrow> string option \<Rightarrow> int \<Rightarrow> panic + err list" where
  "checkResTargetName fn scope name location =
     (case name of
        None \<Rightarrow> Inr []
      | Some col \<Rightarrow>
          (case has scope [] [] col of
             Inl p \<Rightarrow> Inl p
           | Inr ret \<Rightarrow>
               if ret = scopeRetUnknown then Inr [identErrNoKind [] [] col location fn]
               else Inr []))"

text \<open>
  One round of the loop of \<open>checkSelect\<close> over the select list: the output column
  reference to record (\<open>None\<close> after \<open>continue\<close>) and the errors appended.
\<close>

definition fieldString :: "Node list \<Rightarrow> nat \<Rightarrow> panic + string" where
  "fieldString items i =
     (case items ! i of String s \<Rightarrow> Inr s | _ \<Rightarrow> Inl TypeAssertion)"

definition selectTarget :: "Call \<Rightarrow> Scope \<Rightarrow> Node \<Rightarrow> panic + (outputColRef option \<times> err list)" where
  "selectTarget fn scope listItem =
     (case listItem of
        ResTarget resName val location \<Rightarrow>
          (let name = (case resName of None \<Rightarrow> [] | Some n \<Rightarrow> n)
           in case val of
                ColumnRef items colLocation \<Rightarrow>
                  (let ln = length items
                   in if ln = 1 \<and> items ! 0 = A_Star then
                        Inl (PanicMsg ''subqueries with * are not supported yet'')
                      else if ln = 0 then Inl IndexOutOfRange
                      else
                        (case fieldString items (ln - 1) of
                           Inl p \<Rightarrow> Inl p
                         | Inr col \<Rightarrow>
                             (case (if ln \<ge> 2 then fieldString items (ln - 2) else Inr []) of
                                Inl p \<Rightarrow> Inl p
                              | Inr table \<Rightarrow>
                                  (case (if ln \<ge> 3 then fieldString items (ln - 3) else Inr []) of
                                     Inl p \<Rightarrow> Inl p
                                   | Inr schema \<Rightarrow>
                                       (case get scope schema table col of
                                          Inl p \<Rightarrow> Inl p
                                        | Inr (column, ret) \<Rightarrow>
                                            if ret \<noteq> scopeRetOk then
                                              Inr (None, [identErrNoKind schema table col colLocation fn])
                                            else if name = [] then
                                              (case column of
                                                 None \<Rightarrow> Inl NilDereference
                                               | Some c \<Rightarrow>
                                                   Inr (Some \<lparr>ocr_name = Name c, ocr_col = column\<rparr>, []))
                                            else Inr (Some \<lparr>ocr_name = name, ocr_col = column\<rparr>, []))))))
              | _ \<Rightarrow> Inr (Some \<lparr>ocr_name = name, ocr_col = None\<rparr>, []))
      | _ \<Rightarrow> Inl TypeAssertion)"

fun selectTargets :: "Call \<Rightarrow> Scope \<Rightarrow> Node list \<Rightarrow> outputColRef list \<Rightarrow> err list
    \<Rightarrow> panic + (outputColRef list \<times> err list)" where
  "selectTargets fn scope [] addRefs errs = Inr (addRefs, errs)"
| "selectTargets fn scope (listItem # rest) addRefs errs =
     (case selectTarget fn scope listItem of
        Inl p \<Rightarrow> Inl p
      | Inr (None, es) \<Rightarrow> selectTargets fn scope rest addRefs (errs @ es)
      | Inr (Some r, es) \<Rightarrow> selectTargets fn scope rest (addRefs @ [r]) (errs @ es))"

text \<open>The weight of the worklist of the from clause, for the termination proof below.\<close>

fun stackWeight :: "Node list \<Rightarrow> nat" where
  "stackWeight [] = 0"
| "stackWeight (x # xs) = 3 * size x + 1 + stackWeight xs"


text \<open>
  The recursion of the checker. Every function takes the scope and returns it, since
  the Go functions mutate the scope they are handed; \<open>Inl\<close> is a panic. The arguments
  of \<open>checkSelect\<close> are the fields of the \<open>SelectStmt\<close>. \<open>descendEach\<close> is a loop
  \<open>for _, x := range items { errs = descend(x) }\<close>. \<open>fromLoop\<close> is the worklist loop of
  \<open>checkSelect\<close> over the from clause: the head of the list is the top of the stack,
  and the loop carries \<open>nTables\<close> and the errors so far.
\<close>

function checkCallRecurse :: "State \<Rightarrow> Call \<Rightarrow> Scope \<Rightarrow> Node \<Rightarrow> panic + (err list \<times> Scope)"
  and descendEach :: "State \<Rightarrow> Call \<Rightarrow> Scope \<Rightarrow> Node list \<Rightarrow> panic + (err list \<times> Scope)"
  and checkSelect :: "State \<Rightarrow> Call \<Rightarrow> Scope \<Rightarrow> Node option \<Rightarrow> Node option \<Rightarrow> Node list \<Rightarrow> Node
      \<Rightarrow> Node \<Rightarrow> Node list \<Rightarrow> Node list \<Rightarrow> Node list
      \<Rightarrow> panic + ((outputColRef list \<times> err list) \<times> Scope)"
  and fromLoop :: "State \<Rightarrow> Call \<Rightarrow> Scope \<Rightarrow> Node list \<Rightarrow> nat \<Rightarrow> err list
      \<Rightarrow> panic + ((nat \<times> err list) \<times> Scope)"
  and checkUpdate :: "State \<Rightarrow> Call \<Rightarrow> Scope \<Rightarrow> RangeVar option \<Rightarrow> Node list \<Rightarrow> Node
      \<Rightarrow> panic + (err list \<times> Scope)"
  and checkInsert :: "State \<Rightarrow> Call \<Rightarrow> Scope \<Rightarrow> RangeVar option \<Rightarrow> Node list
      \<Rightarrow> panic + (err list \<times> Scope)"
  and checkDelete :: "State \<Rightarrow> Call \<Rightarrow> Scope \<Rightarrow> RangeVar option \<Rightarrow> Node
      \<Rightarrow> panic + (err list \<times> Scope)"
where
  "checkCallRecurse state fn scope NilNode = Inr ([], scope)"
| "checkCallRecurse state fn scope (RawStmt stmt) =
     Inl (PanicMsg ''there should be no raw statements at this level'')"
| "checkCallRecurse state fn scope (SelectStmt larg rarg fromClause whereClause havingClause
       targetList groupClause sortClause) =
     (case checkSelect state fn scope larg rarg fromClause whereClause havingClause
             targetList groupClause sortClause of
        Inl p \<Rightarrow> Inl p
      | Inr ((refs, errList), scope') \<Rightarrow> Inr (errList, scope'))"
| "checkCallRecurse state fn scope (UpdateStmt relation targetList whereClause) =
     checkUpdate state fn scope relation targetList whereClause"
| "checkCallRecurse state fn scope (InsertStmt relation cols) =
     checkInsert state fn scope relation cols"
| "checkCallRecurse state fn scope (DeleteStmt relation whereClause) =
     checkDelete state fn scope relation whereClause"
| "checkCallRecurse state fn scope (SortBy node) = checkCallRecurse state fn scope node"
| "checkCallRecurse state fn scope (FuncCall args) = descendEach state fn scope args"
| "checkCallRecurse state fn scope (A_Expr lexpr rexpr) =
     (case checkCallRecurse state fn scope lexpr of
        Inl p \<Rightarrow> Inl p
      | Inr (errs1, scope1) \<Rightarrow>
          (case checkCallRecurse state fn scope1 rexpr of
             Inl p \<Rightarrow> Inl p
           | Inr (errs2, scope2) \<Rightarrow>
               (case typeCheck state fn scope2 lexpr rexpr of
                  Inl p \<Rightarrow> Inl p
                | Inr None \<Rightarrow> Inr (errs1 @ errs2, scope2)
                | Inr (Some e) \<Rightarrow> Inr (errs1 @ errs2 @ [e], scope2))))"
| "checkCallRecurse state fn scope (BoolExpr args) = descendEach state fn scope args"
| "checkCallRecurse state fn scope (ColumnRef items location) =
     (case checkColumnRef fn scope items location of
        Inl p \<Rightarrow> Inl p
      | Inr errs \<Rightarrow> Inr (errs, scope))"
| "checkCallRecurse state fn scope (String s) = Inr ([], scope)"
| "checkCallRecurse state fn scope A_Star = Inr ([], scope)"
| "checkCallRecurse state fn scope (SubLink subselect) = checkCallRecurse state fn scope subselect"
| "checkCallRecurse state fn scope (ResTarget name val location) =
     (case checkResTargetName fn scope name location of
        Inl p \<Rightarrow> Inl p
      | Inr errs1 \<Rightarrow>
          if val \<noteq> NilNode then
            (case checkCallRecurse state fn scope val of
               Inl p \<Rightarrow> Inl p
             | Inr (errs2, scope2) \<Rightarrow> Inr (errs1 @ errs2, scope2))
          else Inr (errs1, scope))"
| "checkCallRecurse state fn scope (RangeVarNode r) = Inr ([], scope)"
| "checkCallRecurse state fn scope (JoinExpr larg rarg quals) = Inr ([], scope)"
| "checkCallRecurse state fn scope (RangeSubselect lateral subquery alias) = Inr ([], scope)"
| "checkCallRecurse state fn scope (ParamRef number location) = Inr ([], scope)"
| "checkCallRecurse state fn scope (OtherNode children) = Inr ([], scope)"
| "descendEach state fn scope [] = Inr ([], scope)"
| "descendEach state fn scope (x # xs) =
     (case checkCallRecurse state fn scope x of
        Inl p \<Rightarrow> Inl p
      | Inr (errs1, scope1) \<Rightarrow>
          (case descendEach state fn scope1 xs of
             Inl p \<Rightarrow> Inl p
           | Inr (errs2, scope2) \<Rightarrow> Inr (errs1 @ errs2, scope2)))"
| "checkSelect state fn scope larg rarg fromClause whereClause havingClause
       targetList groupClause sortClause =
     (if larg \<noteq> None \<and> rarg \<noteq> None then
        (case checkCallRecurse state fn scope (the larg) of
           Inl p \<Rightarrow> Inl p
         | Inr (errs1, scope1) \<Rightarrow>
             (case checkCallRecurse state fn scope1 (the rarg) of
                Inl p \<Rightarrow> Inl p
              | Inr (errs2, scope2) \<Rightarrow> Inr (([], errs1 @ errs2), scope2)))
      else
        (case fromLoop state fn scope (rev fromClause) 0 [] of
           Inl p \<Rightarrow> Inl p
         | Inr ((nTables, errs1), scope1) \<Rightarrow>
             (case checkCallRecurse state fn scope1 whereClause of
                Inl p \<Rightarrow> Inl p
              | Inr (errs2, scope2) \<Rightarrow>
                  (case checkCallRecurse state fn scope2 havingClause of
                     Inl p \<Rightarrow> Inl p
                   | Inr (errs3, scope3) \<Rightarrow>
                       (case selectTargets fn scope3 targetList [] (errs1 @ errs2 @ errs3) of
                          Inl p \<Rightarrow> Inl p
                        | Inr (addRefs, errs4) \<Rightarrow>
                            (case descendEach state fn (pushOutputNames scope3 addRefs) groupClause of
                               Inl p \<Rightarrow> Inl p
                             | Inr (errs5, scope5) \<Rightarrow>
                                 (case descendEach state fn scope5 sortClause of
                                    Inl p \<Rightarrow> Inl p
                                  | Inr (errs6, scope6) \<Rightarrow>
                                      (case popOutputNames (length addRefs) scope6 of
                                         Inl p \<Rightarrow> Inl p
                                       | Inr scope7 \<Rightarrow>
                                           (case popTables nTables scope7 of
                                              Inl p \<Rightarrow> Inl p
                                            | Inr scope8 \<Rightarrow>
                                                Inr ((addRefs, errs4 @ errs5 @ errs6), scope8))))))))))"
| "fromLoop state fn scope [] nTables errs = Inr ((nTables, errs), scope)"
| "fromLoop state fn scope (popped # stack) nTables errs =
     (case popped of
        RangeVarNode r \<Rightarrow>
          (case addTable fn scope r of
             Inl p \<Rightarrow> Inl p
           | Inr (n, es, scope') \<Rightarrow> fromLoop state fn scope' stack (nTables + n) (errs @ es))
      | JoinExpr larg rarg quals \<Rightarrow>
          fromLoop state fn scope (larg # rarg # quals # stack) nTables errs
      | A_Expr lexpr rexpr \<Rightarrow>
          (case checkCallRecurse state fn scope popped of
             Inl p \<Rightarrow> Inl p
           | Inr (es, scope') \<Rightarrow> fromLoop state fn scope' stack nTables (errs @ es))
      | BoolExpr args \<Rightarrow>
          (case checkCallRecurse state fn scope popped of
             Inl p \<Rightarrow> Inl p
           | Inr (es, scope') \<Rightarrow> fromLoop state fn scope' stack nTables (errs @ es))
      | RangeSubselect lateral subquery alias \<Rightarrow>
          (case alias of
             None \<Rightarrow> Inl (PanicMsg ''subquery must have alias'')
           | Some a \<Rightarrow>
               (case subquery of
                  SelectStmt larg rarg fromClause whereClause havingClause
                      targetList groupClause sortClause \<Rightarrow>
                    (case checkSelect state fn
                            (if lateral then clone scope else NewScope (info scope))
                            larg rarg fromClause whereClause havingClause
                            targetList groupClause sortClause of
                       Inl p \<Rightarrow> Inl p
                     | Inr ((subSelMap, subSelectErrs), subSelectScope) \<Rightarrow>
                         (case Aliasname a of
                            None \<Rightarrow> Inl NilDereference
                          | Some aliasname \<Rightarrow>
                              fromLoop state fn
                                (pushPseudoTable scope aliasname
                                   (outputColsToPseudoTable aliasname subSelMap))
                                stack (nTables + 1) (errs @ subSelectErrs)))
                | _ \<Rightarrow> Inl (PanicMsg ''subquery not a select statement'')))
      | _ \<Rightarrow> Inl (PanicMsg ''what is this weird from statement''))"
| "checkUpdate state fn scope relation targetList whereClause =
     (case relation of
        None \<Rightarrow> Inl NilDereference
      | Some r \<Rightarrow>
          (case addTable fn scope r of
             Inl p \<Rightarrow> Inl p
           | Inr (nTables, errs1, scope1) \<Rightarrow>
               (case descendEach state fn scope1 targetList of
                  Inl p \<Rightarrow> Inl p
                | Inr (errs2, scope2) \<Rightarrow>
                    (case checkCallRecurse state fn scope2 whereClause of
                       Inl p \<Rightarrow> Inl p
                     | Inr (errs3, scope3) \<Rightarrow>
                         (case popTables nTables scope3 of
                            Inl p \<Rightarrow> Inl p
                          | Inr scope4 \<Rightarrow> Inr (errs1 @ errs2 @ errs3, scope4))))))"
| "checkInsert state fn scope relation cols =
     (case relation of
        None \<Rightarrow> Inl NilDereference
      | Some r \<Rightarrow>
          (case addTable fn scope r of
             Inl p \<Rightarrow> Inl p
           | Inr (nTables, errs1, scope1) \<Rightarrow>
               (case descendEach state fn scope1 cols of
                  Inl p \<Rightarrow> Inl p
                | Inr (errs2, scope2) \<Rightarrow>
                    (case popTables nTables scope2 of
                       Inl p \<Rightarrow> Inl p
                     | Inr scope3 \<Rightarrow> Inr (errs1 @ errs2, scope3)))))"
| "checkDelete state fn scope relation whereClause =
     (case relation of
        None \<Rightarrow> Inl NilDereference
      | Some r \<Rightarrow>
          (case addTable fn scope r of
             Inl p \<Rightarrow> Inl p
           | Inr (nTables, errs1, scope1) \<Rightarrow>
               (case checkCallRecurse state fn scope1 whereClause of
                  Inl p \<Rightarrow> Inl p
                | Inr (errs2, scope2) \<Rightarrow>
                    (case popTables nTables scope2 of
                       Inl p \<Rightarrow> Inl p
                     | Inr scope3 \<Rightarrow> Inr (errs1 @ errs2, scope3)))))"
  by pat_completeness auto

text \<open>
  The recursion of the checker ends: every call is on a smaller part of the tree. The worklist of
  \<open>fromLoop\<close> grows by two entries at a join, so its entries weigh three times
  their size and one more.
\<close>

termination
proof -
  have w_append: "stackWeight (xs @ ys) = stackWeight xs + stackWeight ys" for xs ys
    by (induction xs) auto
  have w_rev: "stackWeight (rev xs) = stackWeight xs" for xs
    by (induction xs) (auto simp: w_append)
  have w_le: "stackWeight xs \<le> 3 * size_list size xs" for xs
    by (induction xs) auto
  show ?thesis
    apply (relation "measure (case_sum
        (case_sum (\<lambda>(state, fn, scope, n). 3 * size n + 2)
          (case_sum (\<lambda>(state, fn, scope, ns). 3 * size_list size ns + 2)
             (\<lambda>(state, fn, scope, larg, rarg, fromClause, whereClause, havingClause,
                 targetList, groupClause, sortClause).
                3 * size (SelectStmt larg rarg fromClause whereClause havingClause
                     targetList groupClause sortClause) + 1)))
        (case_sum
          (case_sum (\<lambda>(state, fn, scope, stack, nTables, errs). stackWeight stack + 2)
             (\<lambda>(state, fn, scope, relation, targetList, whereClause).
                3 * size (UpdateStmt relation targetList whereClause) + 1))
          (case_sum (\<lambda>(state, fn, scope, relation, cols). 3 * size (InsertStmt relation cols) + 1)
             (\<lambda>(state, fn, scope, relation, whereClause).
                3 * size (DeleteStmt relation whereClause) + 1))))")
     apply (auto simp: w_rev)
     apply (rule le_less_trans [OF w_le], simp)+
    done
qed

text \<open>
  \<open>checkCall\<close>: every statement of the parse tree is checked in a scope of its own; a
  \<open>RawStmt\<close> is unwrapped first. The loop carries the errors so far.
\<close>

fun checkCallStmts :: "State \<Rightarrow> Call \<Rightarrow> Node list \<Rightarrow> err list \<Rightarrow> panic + err list" where
  "checkCallStmts state fn [] errs = Inr errs"
| "checkCallStmts state fn (stmt # stmts) errs =
     (let stmt' = (case stmt of RawStmt raw \<Rightarrow> raw | _ \<Rightarrow> stmt)
      in case checkCallRecurse state fn (NewScope (st_DBInfo state)) stmt' of
           Inl p \<Rightarrow> Inl p
         | Inr (errList, scope') \<Rightarrow> checkCallStmts state fn stmts (errs @ errList))"

definition checkCall :: "State \<Rightarrow> Call \<Rightarrow> Node list \<Rightarrow> panic + err list" where
  "checkCall state fn tree = checkCallStmts state fn tree []"

text \<open>
  \<open>checkCalls\<close>, with the parser \<open>pgquery.Parse\<close> as a parameter: it returns the
  statements or the parse error. After a parse error the empty tree is still checked.
\<close>

fun checkCalls :: "(string \<Rightarrow> string + Node list) \<Rightarrow> State \<Rightarrow> Call list \<Rightarrow> err list \<Rightarrow> panic + err list" where
  "checkCalls parse state [] errs = Inr errs"
| "checkCalls parse state (fn # fns) errs =
     (case parse (SQL fn) of
        Inl e \<Rightarrow>
          (case checkCall state fn [] of
             Inl p \<Rightarrow> Inl p
           | Inr es \<Rightarrow> checkCalls parse state fns (errs @ [ErrParse e fn] @ es))
      | Inr tree \<Rightarrow>
          (case checkCall state fn tree of
             Inl p \<Rightarrow> Inl p
           | Inr es \<Rightarrow> checkCalls parse state fns (errs @ es)))"

section \<open>Fixtures of the checker\<close>

text \<open>\<open>testCall\<close> of \<open>psql_check_test.go\<close>, and a state over the test catalog.\<close>

definition testCall :: "string \<Rightarrow> string list \<Rightarrow> Call" where
  "testCall sql argTypes = \<lparr>SQL = sql, ArgTypes = argTypes, Package = ''pkg'',
     Pos = \<lparr>Filename = ''t.go'', Line = 0, PosColumn = 0\<rparr>\<rparr>"

definition testState :: State where
  "testState = \<lparr>st_DBInfo = testCatalog, BasedOnType = Map.empty\<rparr>"

definition tableRef :: "string \<Rightarrow> int \<Rightarrow> Node" where
  "tableRef n location = RangeVarNode \<lparr>Schemaname = None, Relname = Some n, RvAlias = None,
     RvLocation = location\<rparr>"

text \<open>
  The parse tree of \<open>select id from users, videos;\<close>: the column reference is at byte 7,
  the tables at bytes 15 and 22.
\<close>

definition selectIdUsersVideos :: "Node list" where
  "selectIdUsersVideos =
     [RawStmt (SelectStmt None None [tableRef ''users'' 15, tableRef ''videos'' 22]
        NilNode NilNode [ResTarget None (ColumnRef [String ''id''] 7) 7] [] [])]"

text \<open>
  The scope of \<open>select id from users, videos;\<close> after its from clause: the worklist is
  popped from the end, so \<open>videos\<close> is pushed first.
\<close>

definition usersVideosScope :: Scope where
  "usersVideosScope = \<lparr>info = testCatalog, tables = [videosTable, usersTable],
     aliases = ['''', ''''], outputNames = []\<rparr>"

text \<open>
  The imports of \<open>TestTypeErrors\<close>: the driver type \<open>null.Bool\<close> comes from the package
  \<open>github.com/volatiletech/null\<close>. The table \<open>flags\<close> has a column of that type, and
  the tree is the parse of \<open>delete from flags where active = $1\<close>.
\<close>

definition flagsTable :: Table where
  "flagsTable = \<lparr>SchemaName = [], TableName = ''flags'',
     Columns = [intColumn ''id'',
       \<lparr>Name = ''active'', Type = ''null.Bool'', DBType = ''boolean'', UDTName = ''bool'',
        FullDBType = ''bool'', Nullable = True, Unique = False\<rparr>]\<rparr>"

definition nullImport :: string where
  "nullImport = [CHR 0x22] @ ''github.com/volatiletech/null'' @ [CHR 0x22]"

definition nullBoolState :: State where
  "nullBoolState = \<lparr>st_DBInfo = \<lparr>Tables = [flagsTable]\<rparr>,
     BasedOnType = [''null.Bool'' \<mapsto> \<lparr>Standard = [], ThirdParty = [nullImport]\<rparr>]\<rparr>"

definition deleteFlagsActive :: "Node list" where
  "deleteFlagsActive =
     [RawStmt (DeleteStmt (Some \<lparr>Schemaname = None, Relname = Some ''flags'', RvAlias = None,
         RvLocation = 12\<rparr>)
        (A_Expr (ColumnRef [String ''active''] 24) (ParamRef 1 33)))]"

section \<open>Notions used to state the properties\<close>

definition isColumnRef :: "Node \<Rightarrow> bool" where
  "isColumnRef n = (case n of ColumnRef items location \<Rightarrow> True | _ \<Rightarrow> False)"

text \<open>
  Two select-list items are alike when they are equal, or when both are targets of
  the same name whose values are not column references; the values themselves and
  the locations are arbitrary.
\<close>

definition alikeTargets :: "Node \<Rightarrow> Node \<Rightarrow> bool" where
  "alikeTargets a b =
     (a = b \<or>
      (case a of
         ResTarget name val location \<Rightarrow>
           (case b of
              ResTarget name' val' location' \<Rightarrow>
                name = name' \<and> \<not> isColumnRef val \<and> \<not> isColumnRef val'
            | _ \<Rightarrow> False)
       | _ \<Rightarrow> False))"

text \<open>The parse tree of \<open>select count(nosuch), $7 from users\<close>.\<close>

definition selectCountNosuch :: Node where
  "selectCountNosuch =
     SelectStmt None None [tableRef ''users'' 31] NilNode NilNode
       [ResTarget None (FuncCall [ColumnRef [String ''nosuch''] 13]) 7,
        ResTarget None (ParamRef 7 22) 22] [] []"

definition selectTwoConstants :: Node where
  "selectTwoConstants =
     SelectStmt None None [tableRef ''users'' 31] NilNode NilNode
       [ResTarget None (OtherNode []) 7, ResTarget None (OtherNode []) 10] [] []"

text \<open>
  \<open>pushedOn s n s'\<close>: the scope \<open>s'\<close> is \<open>s\<close> with \<open>n\<close> more entries on its tables stack
  and \<open>n\<close> more on its aliases stack, and nothing else changed.
\<close>

definition pushedOn :: "Scope \<Rightarrow> nat \<Rightarrow> Scope \<Rightarrow> bool" where
  "pushedOn s n s' =
     (\<exists>ts als. s' = s\<lparr>aliases := aliases s @ als, tables := tables s @ ts\<rparr>
        \<and> length ts = n \<and> length als = n)"

text \<open>The statement handlers are not unfolded by the simplifier on their own.\<close>

declare checkSelect.simps [simp del] checkUpdate.simps [simp del]
  checkInsert.simps [simp del] checkDelete.simps [simp del]

text \<open>The parse tree of \<open>select id from nosuch\<close>, whose table is not in the catalog.\<close>

definition selectIdNosuch :: Node where
  "selectIdNosuch =
     SelectStmt None None [tableRef ''nosuch'' 15] NilNode NilNode
       [ResTarget None (ColumnRef [String ''id''] 7) 7] [] []"

section \<open>The scope in memory\<close>

text \<open>
  Go slices share their backing arrays: \<open>append\<close> writes into the array of its
  argument when the capacity allows and allocates a new array otherwise, and
  \<open>s[:len(s)-1]\<close> keeps the array. To state what \<open>clone\<close> is for, the three stacks of
  a \<open>Scope\<close> are modelled here as slice headers over a store of arrays. An array is
  the list of its cells, as long as its capacity; cells past the length of a slice
  are never read. The capacity that \<open>append\<close> picks when it grows is left to the
  runtime: \<open>grow\<close> is any function, and the new capacity is at least the new length.
\<close>

record slice =
  s_ptr :: nat
  s_len :: nat
  s_cap :: nat

record 'a mem =
  arrays :: "nat \<Rightarrow> 'a list"
  nextFree :: nat

definition sliceView :: "'a mem \<Rightarrow> slice \<Rightarrow> 'a list" where
  "sliceView m sl = take (s_len sl) (arrays m (s_ptr sl))"

definition allocArray :: "'a mem \<Rightarrow> 'a list \<Rightarrow> 'a mem \<times> nat" where
  "allocArray m cells =
     (m\<lparr>arrays := (arrays m)(nextFree m := cells), nextFree := nextFree m + 1\<rparr>, nextFree m)"

text \<open>\<open>append(s, x)\<close>; \<open>zero\<close> is the zero value of the element type.\<close>

definition appendSlice :: "(nat \<Rightarrow> nat) \<Rightarrow> 'a \<Rightarrow> 'a mem \<Rightarrow> slice \<Rightarrow> 'a \<Rightarrow> 'a mem \<times> slice" where
  "appendSlice grow zero m sl x =
     (if s_len sl < s_cap sl then
        (m\<lparr>arrays := (arrays m)(s_ptr sl := (arrays m (s_ptr sl))[s_len sl := x])\<rparr>,
         sl\<lparr>s_len := s_len sl + 1\<rparr>)
      else
        (let newcap = max (s_len sl + 1) (grow (s_cap sl));
             cells = sliceView m sl @ [x] @ replicate (newcap - (s_len sl + 1)) zero
         in case allocArray m cells of
              (m', p) \<Rightarrow> (m', \<lparr>s_ptr = p, s_len = s_len sl + 1, s_cap = newcap\<rparr>)))"

text \<open>\<open>s[:len(s)-1]\<close>, a panic on the empty slice.\<close>

definition dropLast :: "slice \<Rightarrow> panic + slice" where
  "dropLast sl =
     (if s_len sl = 0 then Inl IndexOutOfRange else Inr (sl\<lparr>s_len := s_len sl - 1\<rparr>))"

text \<open>\<open>make([]T, len(s))\<close> followed by \<open>copy\<close> from \<open>s\<close>.\<close>

definition copySlice :: "'a mem \<Rightarrow> slice \<Rightarrow> 'a mem \<times> slice" where
  "copySlice m sl =
     (case allocArray m (sliceView m sl) of
        (m', p) \<Rightarrow> (m', \<lparr>s_ptr = p, s_len = s_len sl, s_cap = s_len sl\<rparr>))"

record Heap =
  tableMem :: "Table mem"
  aliasMem :: "string mem"
  outputMem :: "outputColRef mem"

record ScopeObj =
  o_info :: DBInfo
  o_tables :: slice
  o_aliases :: slice
  o_outputNames :: slice

text \<open>The scope that a \<open>Scope\<close> struct stands for in a heap.\<close>

definition scopeOf :: "Heap \<Rightarrow> ScopeObj \<Rightarrow> Scope" where
  "scopeOf h sc =
     \<lparr>info = o_info sc, tables = sliceView (tableMem h) (o_tables sc),
      aliases = sliceView (aliasMem h) (o_aliases sc),
      outputNames = sliceView (outputMem h) (o_outputNames sc)\<rparr>"

definition zeroTable :: Table where
  "zeroTable = \<lparr>SchemaName = [], TableName = [], Columns = []\<rparr>"

definition zeroRef :: outputColRef where
  "zeroRef = \<lparr>ocr_name = [], ocr_col = None\<rparr>"

definition heapClone :: "Heap \<Rightarrow> ScopeObj \<Rightarrow> Heap \<times> ScopeObj" where
  "heapClone h s =
     (case copySlice (tableMem h) (o_tables s) of
        (tm, ts) \<Rightarrow>
          (case copySlice (aliasMem h) (o_aliases s) of
             (am, as) \<Rightarrow>
               (case copySlice (outputMem h) (o_outputNames s) of
                  (om, os) \<Rightarrow>
                    (\<lparr>tableMem = tm, aliasMem = am, outputMem = om\<rparr>,
                     \<lparr>o_info = o_info s, o_tables = ts, o_aliases = as, o_outputNames = os\<rparr>))))"

definition heapPushPseudoTable :: "(nat \<Rightarrow> nat) \<Rightarrow> Heap \<Rightarrow> ScopeObj \<Rightarrow> string \<Rightarrow> Table \<Rightarrow> Heap \<times> ScopeObj" where
  "heapPushPseudoTable grow h s al data =
     (case appendSlice grow [] (aliasMem h) (o_aliases s) al of
        (am, as) \<Rightarrow>
          (case appendSlice grow zeroTable (tableMem h) (o_tables s) data of
             (tm, ts) \<Rightarrow>
               (h\<lparr>tableMem := tm, aliasMem := am\<rparr>, s\<lparr>o_tables := ts, o_aliases := as\<rparr>)))"

definition heapPushTable :: "(nat \<Rightarrow> nat) \<Rightarrow> Heap \<Rightarrow> ScopeObj \<Rightarrow> string \<Rightarrow> string \<Rightarrow> string
    \<Rightarrow> bool \<times> Heap \<times> ScopeObj" where
  "heapPushTable grow h s schema table al =
     (case lookupTable schema table (Tables (o_info s)) of
        None \<Rightarrow> (False, h, s)
      | Some t \<Rightarrow> (True, heapPushPseudoTable grow h s al t))"

definition heapPopTable :: "Heap \<Rightarrow> ScopeObj \<Rightarrow> panic + (Heap \<times> ScopeObj)" where
  "heapPopTable h s =
     (case dropLast (o_tables s) of
        Inl p \<Rightarrow> Inl p
      | Inr ts \<Rightarrow>
          (case dropLast (o_aliases s) of
             Inl p \<Rightarrow> Inl p
           | Inr as \<Rightarrow> Inr (h, s\<lparr>o_tables := ts, o_aliases := as\<rparr>)))"

definition heapPushOutputName :: "(nat \<Rightarrow> nat) \<Rightarrow> Heap \<Rightarrow> ScopeObj \<Rightarrow> string \<Rightarrow> Column option
    \<Rightarrow> Heap \<times> ScopeObj" where
  "heapPushOutputName grow h s nm c =
     (case appendSlice grow zeroRef (outputMem h) (o_outputNames s) \<lparr>ocr_name = nm, ocr_col = c\<rparr> of
        (om, os) \<Rightarrow> (h\<lparr>outputMem := om\<rparr>, s\<lparr>o_outputNames := os\<rparr>))"

definition heapPopOutputName :: "Heap \<Rightarrow> ScopeObj \<Rightarrow> panic + (Heap \<times> ScopeObj)" where
  "heapPopOutputName h s =
     (case dropLast (o_outputNames s) of
        Inl p \<Rightarrow> Inl p
      | Inr os \<Rightarrow> Inr (h, s\<lparr>o_outputNames := os\<rparr>))"

text \<open>The calls that the checker makes on a scope, and a run of them on one struct.\<close>

datatype scopeOp =
    PushTable string string string
  | PushPseudoTable string Table
  | PopTable
  | PushOutputName string "Column option"
  | PopOutputName

fun heapOp :: "(nat \<Rightarrow> nat) \<Rightarrow> scopeOp \<Rightarrow> Heap \<Rightarrow> ScopeObj \<Rightarrow> panic + (Heap \<times> ScopeObj)" where
  "heapOp grow (PushTable schema table al) h s = Inr (snd (heapPushTable grow h s schema table al))"
| "heapOp grow (PushPseudoTable al data) h s = Inr (heapPushPseudoTable grow h s al data)"
| "heapOp grow PopTable h s = heapPopTable h s"
| "heapOp grow (PushOutputName nm c) h s = Inr (heapPushOutputName grow h s nm c)"
| "heapOp grow PopOutputName h s = heapPopOutputName h s"

fun heapOps :: "(nat \<Rightarrow> nat) \<Rightarrow> scopeOp list \<Rightarrow> Heap \<Rightarrow> ScopeObj \<Rightarrow> panic + (Heap \<times> ScopeObj)" where
  "heapOps grow [] h s = Inr (h, s)"
| "heapOps grow (x # xs) h s =
     (case heapOp grow x h s of
        Inl p \<Rightarrow> Inl p
      | Inr (h', s') \<Rightarrow> heapOps grow xs h' s')"

text \<open>The same calls on the scope as the checker's functions take it.\<close>

fun applyOp :: "scopeOp \<Rightarrow> Scope \<Rightarrow> panic + Scope" where
  "applyOp (PushTable schema table al) s = Inr (snd (pushTable s schema table al))"
| "applyOp (PushPseudoTable al data) s = Inr (pushPseudoTable s al data)"
| "applyOp PopTable s = popTable s"
| "applyOp (PushOutputName nm c) s = Inr (pushOutputName s nm c)"
| "applyOp PopOutputName s = popOutputName s"

fun applyOps :: "scopeOp list \<Rightarrow> Scope \<Rightarrow> panic + Scope" where
  "applyOps [] s = Inr s"
| "applyOps (x # xs) s =
     (case applyOp x s of
        Inl p \<Rightarrow> Inl p
      | Inr s' \<Rightarrow> applyOps xs s')"

text \<open>
  A slice is well formed in a store when its length is within its capacity and, if
  it has any capacity, its array is allocated and as long as the capacity.
\<close>

definition wfSlice :: "'a mem \<Rightarrow> slice \<Rightarrow> bool" where
  "wfSlice m sl =
     (s_len sl \<le> s_cap sl \<and>
      (0 < s_cap sl \<longrightarrow> s_ptr sl < nextFree m \<and> length (arrays m (s_ptr sl)) = s_cap sl))"

definition wfScope :: "Heap \<Rightarrow> ScopeObj \<Rightarrow> bool" where
  "wfScope h s =
     (wfSlice (tableMem h) (o_tables s) \<and> wfSlice (aliasMem h) (o_aliases s)
      \<and> wfSlice (outputMem h) (o_outputNames s))"

text \<open>
  \<open>apart m0 m sl\<close>: the store \<open>m\<close> still holds every array that was allocated in
  \<open>m0\<close>, unchanged, and the slice \<open>sl\<close>, well formed in \<open>m\<close>, has its array
  allocated after \<open>m0\<close>.
\<close>

definition apart :: "'a mem \<Rightarrow> 'a mem \<Rightarrow> slice \<Rightarrow> bool" where
  "apart m0 m sl =
     ((\<forall>a < nextFree m0. arrays m a = arrays m0 a) \<and> nextFree m0 \<le> nextFree m
      \<and> (0 < s_cap sl \<longrightarrow> nextFree m0 \<le> s_ptr sl) \<and> wfSlice m sl)"

definition apartScope :: "Heap \<Rightarrow> Heap \<Rightarrow> ScopeObj \<Rightarrow> bool" where
  "apartScope h0 h s =
     (apart (tableMem h0) (tableMem h) (o_tables s)
      \<and> apart (aliasMem h0) (aliasMem h) (o_aliases s)
      \<and> apart (outputMem h0) (outputMem h) (o_outputNames s))"

text \<open>
  A parent scope under \<open>from users\<close> whose slices have spare capacity, as after two
  pushes and one pop, and the calls that a lateral sub-select makes on its scope.
\<close>

definition parentHeap :: Heap where
  "parentHeap =
     \<lparr>tableMem = \<lparr>arrays = (\<lambda>a. [usersTable, videosTable]), nextFree = 1\<rparr>,
      aliasMem = \<lparr>arrays = (\<lambda>a. ['''', ''v'']), nextFree = 1\<rparr>,
      outputMem = \<lparr>arrays = (\<lambda>a. []), nextFree = 0\<rparr>\<rparr>"

definition parentObj :: ScopeObj where
  "parentObj =
     \<lparr>o_info = testCatalog, o_tables = \<lparr>s_ptr = 0, s_len = 1, s_cap = 2\<rparr>,
      o_aliases = \<lparr>s_ptr = 0, s_len = 1, s_cap = 2\<rparr>,
      o_outputNames = \<lparr>s_ptr = 0, s_len = 0, s_cap = 0\<rparr>\<rparr>"

definition lateralOps :: "scopeOp list" where
  "lateralOps = [PushTable [] ''comments'' ''c'', PushOutputName ''id'' None, PopOutputName,
     PopTable]"

section \<open>Call sites in the host source\<close>

text \<open>
  The Go syntax tree as the call-site resolver sees it. Every expression carries what
  the loader knows about it: its entry in \<open>pkg.TypesInfo.Types\<close> (\<open>None\<close> when the
  map has none) and its position. \<open>OtherExpr\<close> stands for every other kind of
  expression, with the expressions below it in the order \<open>ast.Walk\<close> reaches them.
\<close>

datatype ConstVal = NoValue | StringConst string | UnknownConst | OtherConst

record TypeAndValue =
  tv_IsValue :: bool
  tv_Type :: string
  tv_Value :: ConstVal

datatype ObjKind = ObjBad | ObjPkg | ObjCon | ObjTyp | ObjVar | ObjFun | ObjLbl

text \<open>
  An \<open>*ast.ValueSpec\<close> is known by its identity, the type information of its
  \<open>Values\<close> and its position.
\<close>

record ValueSpec =
  vs_id :: nat
  vs_Values :: "TypeAndValue option list"
  vs_Pos :: Position

datatype Decl = DeclValueSpec ValueSpec | DeclOther

record Object =
  obj_Kind :: ObjKind
  obj_Decl :: Decl
  obj_Pos :: Position

datatype Expr =
    Ident string "Object option" "TypeAndValue option" Position
    \<comment> \<open>\<open>Name\<close>, \<open>Obj\<close>, type information, position\<close>
  | CallExpr Expr "Expr list" "TypeAndValue option" Position
    \<comment> \<open>\<open>Fun\<close>, \<open>Args\<close>, type information, position\<close>
  | SelectorExpr Expr string "TypeAndValue option" Position
    \<comment> \<open>\<open>X\<close>, \<open>Sel.Name\<close>, type information, position\<close>
  | OtherExpr "Expr list" "TypeAndValue option" Position

datatype GoNode =
    ExprNode Expr
  | ExprStmt Expr
  | IfStmt "GoNode option"
    \<comment> \<open>\<open>Init\<close>\<close>
  | AssignStmt "Expr list"
    \<comment> \<open>\<open>Rhs\<close>\<close>
  | GenDecl
  | OtherGoNode

fun typesOf :: "Expr \<Rightarrow> TypeAndValue option" where
  "typesOf (Ident name obj tv pos) = tv"
| "typesOf (CallExpr f args tv pos) = tv"
| "typesOf (SelectorExpr x sel tv pos) = tv"
| "typesOf (OtherExpr children tv pos) = tv"

fun posOf :: "Expr \<Rightarrow> Position" where
  "posOf (Ident name obj tv pos) = pos"
| "posOf (CallExpr f args tv pos) = pos"
| "posOf (SelectorExpr x sel tv pos) = pos"
| "posOf (OtherExpr children tv pos) = pos"

text \<open>The messages of the warnings, by their format strings.\<close>

datatype WarnMsg =
    NotAConstant string
    \<comment> \<open>\<open>argument %q to sql function is not a constant\<close>\<close>
  | NoStringValue
    \<comment> \<open>\<open>could not find string value for sql statement\<close>\<close>
  | DeclNotValue string
    \<comment> \<open>\<open>declaration of %q is not a value\<close>\<close>
  | SqlArgNotConstant
    \<comment> \<open>\<open>sql argument to function is not an identifier or a constant string\<close>\<close>
  | ArgTypeUnknown nat
    \<comment> \<open>\<open>argument %d type unknown\<close>\<close>
  | ConstInNonSqlFunction
    \<comment> \<open>\<open>tagged constant used in non-sql function\<close>\<close>
  | NothingAfterTag
    \<comment> \<open>\<open>failed to find either function or constant after sqlboiler:check tag\<close>\<close>
  | WarnError Position WarnMsg
    \<comment> \<open>\<open>err.Error()\<close> of a \<open>Warn\<close>\<close>

record Warn =
  w_Err :: WarnMsg
  w_Pos :: Position

record Constant =
  c_Name :: string
  c_Val :: string
  c_ValSpec :: nat
  c_Pos :: Position

record sqlFunction =
  fn_Name :: string
  HasContext :: bool

definition functionWhitelist :: "sqlFunction list" where
  "functionWhitelist =
     [\<lparr>fn_Name = ''Exec'', HasContext = False\<rparr>,
      \<lparr>fn_Name = ''ExecContext'', HasContext = True\<rparr>,
      \<lparr>fn_Name = ''Query'', HasContext = False\<rparr>,
      \<lparr>fn_Name = ''QueryContext'', HasContext = True\<rparr>,
      \<lparr>fn_Name = ''QueryRow'', HasContext = False\<rparr>,
      \<lparr>fn_Name = ''QueryRowContext'', HasContext = True\<rparr>,
      \<lparr>fn_Name = ''SQL'', HasContext = False\<rparr>]"

text \<open>\<open>getSQLFunction\<close>, by the \<open>Fun\<close> of the call; only its third result is used.\<close>

definition getSQLFunction :: "Expr \<Rightarrow> panic + sqlFunction option" where
  "getSQLFunction f =
     (case f of
        Ident name obj tv pos \<Rightarrow> Inr (find (\<lambda>w. fn_Name w = name) functionWhitelist)
      | SelectorExpr x sel tv pos \<Rightarrow> Inr (find (\<lambda>w. fn_Name w = sel) functionWhitelist)
      | _ \<Rightarrow> Inl (PanicMsg ''unknown function call name type''))"

text \<open>\<open>constant.StringVal\<close>: the string of a string constant, empty for an unknown
  value, a panic for anything else.\<close>

definition StringVal :: "ConstVal \<Rightarrow> panic + string" where
  "StringVal v =
     (case v of
        StringConst s \<Rightarrow> Inr s
      | UnknownConst \<Rightarrow> Inr []
      | _ \<Rightarrow> Inl (PanicMsg ''not a String''))"

text \<open>
  The loops over the arguments after the sql argument: the type strings, or the
  warning for the first argument without type information. \<open>i\<close> is the index of the
  head of the list and \<open>shown i\<close> the number that the message prints: \<open>i + 1\<close> in
  \<open>tagCall\<close>, \<open>i\<close> in \<open>tagCallsByConstant\<close>.
\<close>

fun argTypesFrom :: "(nat \<Rightarrow> nat) \<Rightarrow> nat \<Rightarrow> Expr list \<Rightarrow> string list \<Rightarrow> Warn + string list" where
  "argTypesFrom shown i [] argTypes = Inr argTypes"
| "argTypesFrom shown i (arg # args) argTypes =
     (case typesOf arg of
        None \<Rightarrow> Inl \<lparr>w_Err = ArgTypeUnknown (shown i), w_Pos = posOf arg\<rparr>
      | Some typeAndVal \<Rightarrow> argTypesFrom shown (i + 1) args (argTypes @ [tv_Type typeAndVal]))"

text \<open>The sql string of a whitelisted call in \<open>tagCall\<close>, from the argument at
  \<open>sqlOffset\<close>: a panic, a warning or the string.\<close>

definition constString :: "TypeAndValue option \<Rightarrow> Warn \<Rightarrow> panic + (Warn + string)" where
  "constString tv w =
     (case tv of
        None \<Rightarrow> Inr (Inl w)
      | Some typeVal \<Rightarrow>
          if \<not> tv_IsValue typeVal then Inr (Inl w)
          else (case StringVal (tv_Value typeVal) of
                  Inl p \<Rightarrow> Inl p
                | Inr s \<Rightarrow> Inr (Inr s)))"

definition sqlArgument :: "Expr \<Rightarrow> panic + (Warn + string)" where
  "sqlArgument arg =
     (case arg of
        Ident name obj tv pos \<Rightarrow>
          (case obj of
             None \<Rightarrow> Inl NilDereference
           | Some ob \<Rightarrow>
               if obj_Kind ob \<noteq> ObjCon then
                 Inr (Inl \<lparr>w_Err = NotAConstant name, w_Pos = pos\<rparr>)
               else
                 (case obj_Decl ob of
                    DeclValueSpec decl \<Rightarrow>
                      (case vs_Values decl of
                         [] \<Rightarrow> Inl IndexOutOfRange
                       | v # vs \<Rightarrow> constString v \<lparr>w_Err = NoStringValue, w_Pos = vs_Pos decl\<rparr>)
                  | DeclOther \<Rightarrow> Inr (Inl \<lparr>w_Err = DeclNotValue name, w_Pos = obj_Pos ob\<rparr>)))
      | _ \<Rightarrow> constString (typesOf arg) \<lparr>w_Err = SqlArgNotConstant, w_Pos = posOf arg\<rparr>)"

text \<open>The part of \<open>tagCall\<close> at a whitelisted call expression.\<close>

definition tagWhitelisted :: "sqlFunction \<Rightarrow> Expr list \<Rightarrow> Position \<Rightarrow> panic + (Call option \<times> Warn option)" where
  "tagWhitelisted fn args pos =
     (let sqlOffset = (if HasContext fn then 1 else 0)
      in if length args \<le> sqlOffset then Inl IndexOutOfRange
         else
           (case sqlArgument (args ! sqlOffset) of
              Inl p \<Rightarrow> Inl p
            | Inr (Inl w) \<Rightarrow> Inr (None, Some w)
            | Inr (Inr sql) \<Rightarrow>
                (case argTypesFrom (\<lambda>i. i + 1) (sqlOffset + 1) (drop (sqlOffset + 1) args) [] of
                   Inl w \<Rightarrow> Inr (None, Some w)
                 | Inr argTypes \<Rightarrow>
                     Inr (Some \<lparr>SQL = sql, ArgTypes = argTypes, Package = [], Pos = pos\<rparr>, None))))"

text \<open>
  \<open>tagCall\<close>. A round of its loop on a new current node is the function on that
  node. \<open>tagCallExpr\<close> is \<open>tagCall\<close> on an expression and \<open>tagCallArgs\<close> the loop over
  the arguments of a call that is not whitelisted, which drops the warnings of the
  inner calls.
\<close>

fun tagCallExpr :: "Expr \<Rightarrow> panic + (Call option \<times> Warn option)"
  and tagCallArgs :: "Expr list \<Rightarrow> panic + (Call option \<times> Warn option)" where
  "tagCallExpr (CallExpr f args tv pos) =
     (case getSQLFunction f of
        Inl p \<Rightarrow> Inl p
      | Inr (Some fn) \<Rightarrow> tagWhitelisted fn args pos
      | Inr None \<Rightarrow>
          (case f of
             SelectorExpr x sel stv spos \<Rightarrow>
               (case x of
                  CallExpr f' args' tv' pos' \<Rightarrow> tagCallExpr x
                | _ \<Rightarrow> tagCallArgs args)
           | _ \<Rightarrow> tagCallArgs args))"
| "tagCallExpr (Ident name obj tv pos) = Inr (None, None)"
| "tagCallExpr (SelectorExpr x sel tv pos) = Inr (None, None)"
| "tagCallExpr (OtherExpr children tv pos) = Inr (None, None)"
| "tagCallArgs [] = Inr (None, None)"
| "tagCallArgs (fnArg # fnArgs) =
     (case tagCallExpr fnArg of
        Inl p \<Rightarrow> Inl p
      | Inr (Some call, w) \<Rightarrow> Inr (Some call, None)
      | Inr (None, w) \<Rightarrow> tagCallArgs fnArgs)"

fun tagCall :: "GoNode \<Rightarrow> panic + (Call option \<times> Warn option)" where
  "tagCall GenDecl = Inr (None, None)"
| "tagCall (ExprNode e) = tagCallExpr e"
| "tagCall (ExprStmt x) = tagCallExpr x"
| "tagCall (IfStmt None) = Inr (None, None)"
| "tagCall (IfStmt (Some init)) = tagCall init"
| "tagCall (AssignStmt []) = Inl IndexOutOfRange"
| "tagCall (AssignStmt (rhs # rest)) = tagCallExpr rhs"
| "tagCall OtherGoNode = Inr (None, None)"

text \<open>
  What \<open>iterateCommentMap\<close> does with a tagged node that is no declaration: the
  calls and the warnings it appends.
\<close>

definition tagNode :: "GoNode \<Rightarrow> Position \<Rightarrow> panic + (Call list \<times> Warn list)" where
  "tagNode node nodePos =
     (case tagCall node of
        Inl p \<Rightarrow> Inl p
      | Inr (call, err) \<Rightarrow>
          (let warns1 = (case err of
                           None \<Rightarrow> []
                         | Some w \<Rightarrow> [\<lparr>w_Err = WarnError (w_Pos w) (w_Err w), w_Pos = nodePos\<rparr>])
           in case call of
                None \<Rightarrow> Inr ([], warns1 @ [\<lparr>w_Err = NothingAfterTag, w_Pos = nodePos\<rparr>])
              | Some c \<Rightarrow> Inr ([c], warns1)))"

text \<open>
  \<open>tagCallsByConstant\<close>. The inner loop over the tagged constants for one identifier
  argument, and the loop over the arguments that carries \<open>constVal\<close> and
  \<open>constIndex\<close>: a later argument that matches replaces an earlier one.
\<close>

fun matchConstant :: "Constant list \<Rightarrow> string \<Rightarrow> Object option \<Rightarrow> panic + Constant option" where
  "matchConstant [] name obj = Inr None"
| "matchConstant (c # cs) name obj =
     (if c_Name c \<noteq> name then matchConstant cs name obj
      else
        (case obj of
           None \<Rightarrow> Inl NilDereference
         | Some ob \<Rightarrow>
             (case obj_Decl ob of
                DeclValueSpec vspec \<Rightarrow>
                  if vs_id vspec \<noteq> c_ValSpec c then matchConstant cs name obj
                  else Inr (Some c)
              | DeclOther \<Rightarrow> matchConstant cs name obj)))"

fun findConstant :: "Constant list \<Rightarrow> Expr list \<Rightarrow> nat \<Rightarrow> (Constant \<times> nat) option
    \<Rightarrow> panic + (Constant \<times> nat) option" where
  "findConstant consts [] i found = Inr found"
| "findConstant consts (argExpr # rest) i found =
     (case argExpr of
        Ident name obj tv pos \<Rightarrow>
          (case matchConstant consts name obj of
             Inl p \<Rightarrow> Inl p
           | Inr None \<Rightarrow> findConstant consts rest (i + 1) found
           | Inr (Some c) \<Rightarrow> findConstant consts rest (i + 1) (Some (c, i)))
      | _ \<Rightarrow> findConstant consts rest (i + 1) found)"

text \<open>
  The visitor at a call expression: whether the walk goes on below the call, the
  calls and the warnings it appends.
\<close>

definition visitCall :: "Constant list \<Rightarrow> Expr \<Rightarrow> Expr list \<Rightarrow> Position
    \<Rightarrow> panic + (bool \<times> Call list \<times> Warn list)" where
  "visitCall consts f args pos =
     (case findConstant consts args 0 None of
        Inl p \<Rightarrow> Inl p
      | Inr None \<Rightarrow> Inr (True, [], [])
      | Inr (Some (constVal, constIndex)) \<Rightarrow>
          (case getSQLFunction f of
             Inl p \<Rightarrow> Inl p
           | Inr None \<Rightarrow>
               Inr (True, [], [\<lparr>w_Err = ConstInNonSqlFunction, w_Pos = posOf (args ! constIndex)\<rparr>])
           | Inr (Some fn) \<Rightarrow>
               (case argTypesFrom (\<lambda>i. i) (constIndex + 1) (drop (constIndex + 1) args) [] of
                  Inl w \<Rightarrow> Inr (True, [], [w])
                | Inr argTypes \<Rightarrow>
                    Inr (False,
                         [\<lparr>SQL = c_Val constVal, ArgTypes = argTypes, Package = [], Pos = pos\<rparr>],
                         []))))"

text \<open>\<open>ast.Walk\<close> with that visitor, over an expression and over a list of them.\<close>

fun walkExpr :: "Constant list \<Rightarrow> Expr \<Rightarrow> Call list \<times> Warn list \<Rightarrow> panic + (Call list \<times> Warn list)"
  and walkExprs :: "Constant list \<Rightarrow> Expr list \<Rightarrow> Call list \<times> Warn list
    \<Rightarrow> panic + (Call list \<times> Warn list)" where
  "walkExpr consts (CallExpr f args tv pos) (calls, warns) =
     (case visitCall consts f args pos of
        Inl p \<Rightarrow> Inl p
      | Inr (descend, cs, ws) \<Rightarrow>
          if descend then walkExprs consts (f # args) (calls @ cs, warns @ ws)
          else Inr (calls @ cs, warns @ ws))"
| "walkExpr consts (Ident name obj tv pos) st = Inr st"
| "walkExpr consts (SelectorExpr x sel tv pos) st = walkExpr consts x st"
| "walkExpr consts (OtherExpr children tv pos) st = walkExprs consts children st"
| "walkExprs consts [] st = Inr st"
| "walkExprs consts (e # es) st =
     (case walkExpr consts e st of
        Inl p \<Rightarrow> Inl p
      | Inr st' \<Rightarrow> walkExprs consts es st')"

text \<open>
  \<open>tagCallsByConstant\<close> on a file, given as the outermost expressions of the file in
  the order of the walk.
\<close>

definition tagCallsByConstant :: "Expr list \<Rightarrow> Constant list \<Rightarrow> panic + (Call list \<times> Warn list)" where
  "tagCallsByConstant file consts = walkExprs consts file ([], [])"

section \<open>Fixtures of the call sites\<close>

definition at :: "int \<Rightarrow> int \<Rightarrow> Position" where
  "at l c = \<lparr>Filename = ''main.go'', Line = l, PosColumn = c\<rparr>"

definition typed :: "string \<Rightarrow> TypeAndValue option" where
  "typed t = Some \<lparr>tv_IsValue = True, tv_Type = t, tv_Value = NoValue\<rparr>"

definition stringLit :: "string \<Rightarrow> int \<Rightarrow> int \<Rightarrow> Expr" where
  "stringLit s l c =
     OtherExpr [] (Some \<lparr>tv_IsValue = True, tv_Type = ''untyped string'', tv_Value = StringConst s\<rparr>)
       (at l c)"

text \<open>The constant \<open>two\<close> of \<open>testpackage/main.go\<close> and an identifier that names it.\<close>

definition twoSpec :: ValueSpec where
  "twoSpec = \<lparr>vs_id = 2,
     vs_Values = [Some \<lparr>tv_IsValue = True, tv_Type = ''untyped string'',
       tv_Value = StringConst ''select * from users;/''\<rparr>],
     vs_Pos = at 16 7\<rparr>"

definition twoConst :: Constant where
  "twoConst = \<lparr>c_Name = ''two'', c_Val = ''select * from users;/'', c_ValSpec = 2, c_Pos = at 16 7\<rparr>"

definition twoIdent :: "int \<Rightarrow> int \<Rightarrow> Expr" where
  "twoIdent l c =
     Ident ''two'' (Some \<lparr>obj_Kind = ObjCon, obj_Decl = DeclValueSpec twoSpec, obj_Pos = at 16 7\<rparr>)
       (Some \<lparr>tv_IsValue = True, tv_Type = ''string'',
          tv_Value = StringConst ''select * from users;/''\<rparr>) (at l c)"

definition idIdent :: "int \<Rightarrow> int \<Rightarrow> Expr" where
  "idIdent l c =
     Ident ''id'' (Some \<lparr>obj_Kind = ObjVar, obj_Decl = DeclOther, obj_Pos = at 32 2\<rparr>)
       (typed ''int'') (at l c)"

definition dbSel :: "string \<Rightarrow> int \<Rightarrow> int \<Rightarrow> Expr" where
  "dbSel m l c =
     SelectorExpr (Ident ''db'' (Some \<lparr>obj_Kind = ObjVar, obj_Decl = DeclOther, obj_Pos = at 27 2\<rparr>)
        (typed ''*database/sql.DB'') (at l c)) m None (at l c)"

text \<open>
  \<open>db.QueryRowContext(context.Background(), two, id).Scan(&queryRowScan)\<close> of line 84,
  and \<open>db.QueryRow(`select * from logs where id = $1;`, id).Scan(&queryRowScan)\<close> of
  line 77, the right-hand side of a tagged assignment.
\<close>

definition queryRowContextCall :: Expr where
  "queryRowContextCall =
     CallExpr (dbSel ''QueryRowContext'' 84 2)
       [CallExpr (SelectorExpr (Ident ''context'' None None (at 84 21)) ''Background'' None (at 84 21))
          [] (typed ''context.Context'') (at 84 21),
        twoIdent 84 43, idIdent 84 48]
       (typed ''*database/sql.Row'') (at 84 2)"

definition scanOfQueryRowContext :: Expr where
  "scanOfQueryRowContext =
     CallExpr (SelectorExpr queryRowContextCall ''Scan'' None (at 84 2))
       [OtherExpr [Ident ''queryRowScan'' None (typed ''int'') (at 84 58)] (typed ''*int'') (at 84 57)]
       (typed ''error'') (at 84 2)"

definition queryRowCall :: Expr where
  "queryRowCall =
     CallExpr (dbSel ''QueryRow'' 77 8)
       [stringLit ''select * from logs where id = $1;'' 77 20, idIdent 77 57]
       (typed ''*database/sql.Row'') (at 77 8)"

definition scanOfQueryRow :: GoNode where
  "scanOfQueryRow =
     AssignStmt [CallExpr (SelectorExpr queryRowCall ''Scan'' None (at 77 8))
       [OtherExpr [Ident ''queryRowScan'' None (typed ''int'') (at 77 66)] (typed ''*int'') (at 77 65)]
       (typed ''error'') (at 77 8)]"

text \<open>A call \<open>db.Exec(two, x)\<close> whose second argument has no type information.\<close>

definition untypedExec :: Expr where
  "untypedExec =
     CallExpr (dbSel ''Exec'' 90 2) [twoIdent 90 10, Ident ''x'' None None (at 90 15)]
       None (at 90 2)"

text \<open>
  Two calls that no comment tags. In \<open>db.Exec(`update users set name = $1;`, two)\<close>
  the tagged constant \<open>two\<close> is the parameter of the statement, not the statement;
  in \<open>db.Exec(two, two, id)\<close> it is both.
\<close>

definition execLiteralTwo :: Expr where
  "execLiteralTwo =
     CallExpr (dbSel ''Exec'' 112 2)
       [stringLit ''update users set name = $1;'' 112 10, twoIdent 112 41]
       (typed ''(database/sql.Result, error)'') (at 112 2)"

definition execTwoTwoId :: Expr where
  "execTwoTwoId =
     CallExpr (dbSel ''Exec'' 114 2) [twoIdent 114 10, twoIdent 114 15, idIdent 114 20]
       (typed ''(database/sql.Result, error)'') (at 114 2)"

section \<open>Notions used to state the properties of the call sites\<close>

text \<open>The expressions below an expression, itself included, and below a node.\<close>

fun subExprs :: "Expr \<Rightarrow> Expr list"
  and subExprsOf :: "Expr list \<Rightarrow> Expr list" where
  "subExprs (Ident name obj tv pos) = [Ident name obj tv pos]"
| "subExprs (CallExpr f args tv pos) = CallExpr f args tv pos # subExprs f @ subExprsOf args"
| "subExprs (SelectorExpr x sel tv pos) = SelectorExpr x sel tv pos # subExprs x"
| "subExprs (OtherExpr children tv pos) = OtherExpr children tv pos # subExprsOf children"
| "subExprsOf [] = []"
| "subExprsOf (e # es) = subExprs e @ subExprsOf es"

fun nodeExprs :: "GoNode \<Rightarrow> Expr list" where
  "nodeExprs (ExprNode e) = subExprs e"
| "nodeExprs (ExprStmt x) = subExprs x"
| "nodeExprs (IfStmt None) = []"
| "nodeExprs (IfStmt (Some init)) = nodeExprs init"
| "nodeExprs (AssignStmt rhs) = subExprsOf rhs"
| "nodeExprs GenDecl = []"
| "nodeExprs OtherGoNode = []"

text \<open>
  \<open>argsAfter call site k\<close>: \<open>site\<close> is a call expression at the position of \<open>call\<close>
  with an argument at index \<open>k\<close>, and the argument types of \<open>call\<close> are the static
  type strings of the arguments of \<open>site\<close> after index \<open>k\<close>, one for each, in order.
\<close>

definition argsAfter :: "Call \<Rightarrow> Expr \<Rightarrow> nat \<Rightarrow> bool" where
  "argsAfter call site k =
     (case site of
        CallExpr f args tv pos \<Rightarrow>
          k < length args
          \<and> map (\<lambda>a. map_option tv_Type (typesOf a)) (drop (k + 1) args) = map Some (ArgTypes call)
          \<and> length (ArgTypes call) = length args - (k + 1)
          \<and> Pos call = pos
      | _ \<Rightarrow> False)"

text \<open>
  \<open>taggedSite call site\<close>: \<open>site\<close> is a whitelisted call whose sql argument, after a
  leading context argument if the whitelist names one, has the constant string that
  is the sql of \<open>call\<close>, and \<open>call\<close> has the types of the arguments after it.
\<close>

definition taggedSite :: "Call \<Rightarrow> Expr \<Rightarrow> bool" where
  "taggedSite call site =
     (case site of
        CallExpr f args tv pos \<Rightarrow>
          (case getSQLFunction f of
             Inr (Some fn) \<Rightarrow>
               argsAfter call site (if HasContext fn then 1 else 0)
               \<and> sqlArgument (args ! (if HasContext fn then 1 else 0)) = Inr (Inr (SQL call))
           | _ \<Rightarrow> False)
      | _ \<Rightarrow> False)"

text \<open>
  \<open>namesConstant c arg\<close>: the argument is an identifier with the name of the tagged
  constant \<open>c\<close>, declared by the \<open>ValueSpec\<close> of \<open>c\<close>.
\<close>

definition namesConstant :: "Constant \<Rightarrow> Expr \<Rightarrow> bool" where
  "namesConstant c arg =
     (case arg of
        Ident name obj tv pos \<Rightarrow>
          c_Name c = name
          \<and> (case obj of
                None \<Rightarrow> False
              | Some ob \<Rightarrow>
                  (case obj_Decl ob of
                     DeclValueSpec vspec \<Rightarrow> vs_id vspec = c_ValSpec c
                   | DeclOther \<Rightarrow> False))
      | _ \<Rightarrow> False)"

text \<open>
  \<open>constantSite consts call site\<close>: \<open>site\<close> is a whitelisted call whose sql argument,
  after a leading context argument if the whitelist names one, is a tagged constant;
  the sql of \<open>call\<close> is the value of that constant, and \<open>call\<close> has the types of the
  arguments after the sql argument.
\<close>

definition constantSite :: "Constant list \<Rightarrow> Call \<Rightarrow> Expr \<Rightarrow> bool" where
  "constantSite consts call site =
     (case site of
        CallExpr f args tv pos \<Rightarrow>
          (case getSQLFunction f of
             Inr (Some fn) \<Rightarrow>
               argsAfter call site (if HasContext fn then 1 else 0)
               \<and> list_ex (\<lambda>c. namesConstant c (args ! (if HasContext fn then 1 else 0))
                                \<and> SQL call = c_Val c) consts
           | _ \<Rightarrow> False)
      | _ \<Rightarrow> False)"

section \<open>Properties of the scope\<close>

lemma findInScope_total:
  "length ts \<le> length als \<Longrightarrow> \<exists>r. findInScope schema table ts als = Inr r"
  by (induction schema table ts als rule: findInScope.induct) auto

text \<open>
  Claim C4. When the table argument of \<open>Scope.get\<close> (and so of \<open>Scope.has\<close>) is a
  non-empty string, every status it returns is \<open>scopeRetOk\<close> or \<open>scopeRetUnknown\<close>
  and never \<open>scopeRetAmbiguous\<close>; and on a scope whose tables and aliases stacks have
  the same length the call does return.
\<close>

theorem get_named_table_never_ambiguous:
  assumes "table \<noteq> []"
  shows "(\<forall>c ret. get s schema table column = Inr (c, ret) \<longrightarrow>
            (ret = scopeRetOk \<or> ret = scopeRetUnknown) \<and> ret \<noteq> scopeRetAmbiguous)
       \<and> (\<forall>ret. has s schema table column = Inr ret \<longrightarrow>
            (ret = scopeRetOk \<or> ret = scopeRetUnknown) \<and> ret \<noteq> scopeRetAmbiguous)
       \<and> (length (tables s) = length (aliases s) \<longrightarrow>
            (\<exists>c ret. get s schema table column = Inr (c, ret)))"
proof -
  have g: "(ret = scopeRetOk \<or> ret = scopeRetUnknown) \<and> ret \<noteq> scopeRetAmbiguous"
    if "get s schema table column = Inr (c, ret)" for c ret
    using that assms
    by (auto simp: get_def scopeRetOk_def scopeRetUnknown_def scopeRetAmbiguous_def
        split: sum.splits option.splits)
  have h: "(ret = scopeRetOk \<or> ret = scopeRetUnknown) \<and> ret \<noteq> scopeRetAmbiguous"
    if "has s schema table column = Inr ret" for ret
    using that g by (auto simp: has_def split: sum.splits prod.splits)
  have t: "\<exists>c ret. get s schema table column = Inr (c, ret)"
    if "length (tables s) = length (aliases s)"
  proof -
    from that obtain r where "findInScope schema table (tables s) (aliases s) = Inr r"
      using findInScope_total [of "tables s" "aliases s" schema table] by auto
    then show ?thesis using assms
      by (auto simp: get_def split: option.splits)
  qed
  from g h t show ?thesis by blast
qed

theorem get_named_table_never_ambiguous_witness:
  "''u'' \<noteq> [] \<and> length (tables aliasedUsersScope) = length (aliases aliasedUsersScope)
   \<and> get aliasedUsersScope [] ''u'' ''id'' = Inr (Some (intColumn ''id''), scopeRetOk)
   \<and> has aliasedUsersScope [] ''u'' ''id'' = Inr scopeRetOk
   \<and> scopeRetOk \<noteq> scopeRetAmbiguous"
proof -
  have ne: "''u'' \<noteq> []" by simp
  have g: "get aliasedUsersScope [] ''u'' ''id'' = Inr (Some (intColumn ''id''), scopeRetOk)"
    by (simp add: get_def aliasedUsersScope_def usersTable_def intColumn_def textColumn_def)
  have h: "has aliasedUsersScope [] ''u'' ''id'' = Inr scopeRetOk"
    by (simp add: has_def g)
  have l: "length (tables aliasedUsersScope) = length (aliases aliasedUsersScope)"
    by (simp add: aliasedUsersScope_def)
  from get_named_table_never_ambiguous [OF ne, of aliasedUsersScope "[]" "''id''"] g
  have "scopeRetOk \<noteq> scopeRetAmbiguous" by blast
  with ne g h l show ?thesis by blast
qed

lemma findInScope_find:
  "length ts = length als \<Longrightarrow>
   findInScope schema table ts als =
     Inr (map_option fst (find (\<lambda>(t, a). a = table \<or>
        (schema = [] \<or> SchemaName t = schema) \<and> TableName t = table) (zip ts als)))"
  by (induction schema table ts als rule: findInScope.induct) auto

lemma searchColumns_hits:
  "searchColumns column cs (col, ret) =
     (let h = filter (\<lambda>c. Name c = column) cs in
      if h = [] then Some (col, ret)
      else if ret = scopeRetOk \<or> 2 \<le> length h then None
      else Some (Some (hd h), scopeRetOk))"
  by (induction cs arbitrary: col ret) (auto simp: Let_def Suc_le_eq)

lemma searchTables_hits:
  "searchTables column ts (col, ret) =
     (let h = filter (\<lambda>c. Name c = column) (concat (map Columns ts)) in
      if h = [] then Some (col, ret)
      else if ret = scopeRetOk \<or> 2 \<le> length h then None
      else Some (Some (hd h), scopeRetOk))"
proof (induction ts arbitrary: col ret)
  case Nil
  then show ?case by simp
next
  case (Cons t ts)
  show ?case
    by (cases "filter (\<lambda>c. Name c = column) (Columns t)")
       (auto simp: searchColumns_hits Cons Let_def Suc_le_eq)
qed

text \<open>
  Claim C2, as stated, fails: at the \<open>order by id\<close> of
  \<open>select name as id from users order by id\<close> exactly one in-scope table has a column
  named \<open>id\<close>, and \<open>Scope.get\<close> still returns the column bound to the output name.
\<close>

theorem get_output_name_replaces_unique_hit_counterexample:
  "tables outputNameScope = [usersTable]
   \<and> findColumn ''id'' (Columns usersTable) = Some (intColumn ''id'')
   \<and> get outputNameScope [] [] ''id'' = Inr (Some (textColumn ''name''), scopeRetOk)
   \<and> get outputNameScope [] [] ''id'' \<noteq> Inr (Some (intColumn ''id''), scopeRetOk)"
  by (simp add: get_def outputNameScope_def usersTable_def intColumn_def textColumn_def
      scopeRetOk_def scopeRetUnknown_def)

text \<open>
  Claim C2, amended. With an empty table argument \<open>Scope.get\<close> searches the columns of
  all in-scope tables for the name: two or more hits give \<open>(nil, scopeRetAmbiguous)\<close>.
  Otherwise the output names are always consulted next, and the first binding of that
  name is returned with status \<open>scopeRetOk\<close>, also in place of a unique table hit. Only
  when no output name matches does a unique table hit return that column with
  \<open>scopeRetOk\<close>, and no hit \<open>(nil, scopeRetUnknown)\<close>.
\<close>

theorem get_unqualified:
  "get s schema [] column =
     (let h = filter (\<lambda>c. Name c = column) (concat (map Columns (tables s))) in
      if 2 \<le> length h then Inr (None, scopeRetAmbiguous)
      else case findOutputName column (outputNames s) of
             Some x \<Rightarrow> Inr (ocr_col x, scopeRetOk)
           | None \<Rightarrow> (case h of [] \<Rightarrow> Inr (None, scopeRetUnknown)
                               | c # cs \<Rightarrow> Inr (Some c, scopeRetOk)))"
  by (auto simp: get_def searchTables_hits Let_def scopeRetOk_def scopeRetUnknown_def
      split: option.splits list.splits)

theorem get_unqualified_witness:
  "get aliasedUsersScope [] [] ''id'' = Inr (Some (intColumn ''id''), scopeRetOk)
   \<and> get shadowScope [] [] ''id'' = Inr (None, scopeRetAmbiguous)
   \<and> get outputNameScope [] [] ''id'' = Inr (Some (textColumn ''name''), scopeRetOk)
   \<and> get aliasedUsersScope [] [] ''video'' = Inr (None, scopeRetUnknown)"
  using get_unqualified [of aliasedUsersScope "[]" "''id''"]
    get_unqualified [of shadowScope "[]" "''id''"]
    get_unqualified [of outputNameScope "[]" "''id''"]
    get_unqualified [of aliasedUsersScope "[]" "''video''"]
  by (simp add: aliasedUsersScope_def shadowScope_def outputNameScope_def usersTable_def
      videosTable_def intColumn_def textColumn_def)

text \<open>
  Claim C3, as stated, fails: in \<open>shadowScope\<close> the first stack entry is the table named
  \<open>users\<close> and the second entry carries the alias \<open>users\<close>. The rule of the
  specification selects the aliased \<open>videos\<close>; \<open>Scope.get\<close> selects the first entry and
  reports its column \<open>video\<close> unknown.
\<close>

theorem get_alias_precedence_counterexample:
  "findInScope [] ''users'' (tables shadowScope) (aliases shadowScope) = Inr (Some usersTable)
   \<and> spec_findInScope [] ''users'' (tables shadowScope) (aliases shadowScope) = Some videosTable
   \<and> get shadowScope [] ''users'' ''video'' = Inr (None, scopeRetUnknown)
   \<and> spec_get_named shadowScope [] ''users'' ''video'' = (Some (textColumn ''video''), scopeRetOk)
   \<and> get shadowScope [] ''users'' ''video'' \<noteq> Inr (spec_get_named shadowScope [] ''users'' ''video'')"
  by (simp add: get_def spec_get_named_def spec_findInScope_def shadowScope_def usersTable_def
      videosTable_def intColumn_def textColumn_def scopeRetOk_def scopeRetUnknown_def)

text \<open>
  Claim C3, amended. With a non-empty table argument \<open>t\<close>, \<open>Scope.get\<close> walks the stack
  once and selects the first index \<open>i\<close> at which \<open>aliases[i] = t\<close> or at which the
  table's own name is \<open>t\<close> (and its schema the supplied one, when one is supplied);
  the alias is tested first at each index, and an alias further up the stack does not
  win over an earlier name match. The column is then looked up in the selected table.
\<close>

theorem get_named_first_match:
  assumes "table \<noteq> []" and "length (tables s) = length (aliases s)"
  shows "get s schema table column =
     (case find (\<lambda>(t, a). a = table \<or>
               (schema = [] \<or> SchemaName t = schema) \<and> TableName t = table)
             (zip (tables s) (aliases s)) of
        None \<Rightarrow> Inr (None, scopeRetUnknown)
      | Some (t, a) \<Rightarrow>
          (case findColumn column (Columns t) of
             Some c \<Rightarrow> Inr (Some c, scopeRetOk)
           | None \<Rightarrow> Inr (None, scopeRetUnknown)))"
  using assms
  by (auto simp: get_def findInScope_find split: option.splits)

theorem get_named_first_match_witness:
  "''users'' \<noteq> [] \<and> length (tables shadowScope) = length (aliases shadowScope)
   \<and> get shadowScope [] ''users'' ''id'' = Inr (Some (intColumn ''id''), scopeRetOk)"
proof -
  have ne: "''users'' \<noteq> []" by simp
  have l: "length (tables shadowScope) = length (aliases shadowScope)"
    by (simp add: shadowScope_def)
  from get_named_first_match [OF ne l, of "[]" "''id''"]
  have "get shadowScope [] ''users'' ''id'' = Inr (Some (intColumn ''id''), scopeRetOk)"
    by (simp add: shadowScope_def usersTable_def videosTable_def intColumn_def textColumn_def)
  with ne l show ?thesis by blast
qed

section \<open>Properties of the checker\<close>

lemma has_of_get:
  "get scope schema table column = Inr (c, ret) \<Longrightarrow> has scope schema table column = Inr ret"
  by (simp add: has_def)

text \<open>
  Claim C1, evaluated on the code. For \<open>select id from users, videos;\<close> over the test
  catalog the check produces exactly one identifier error for column \<open>id\<close> at byte 7,
  but its kind is \<open>Unknown\<close>, not \<open>Ambiguous\<close>: the select-list branch of
  \<open>checkSelect\<close> builds its \<open>IdentErr\<close> without a \<open>Kind\<close>. The \<open>ColumnRef\<close> case of
  \<open>checkCallRecurse\<close>, in the same scope, reports \<open>Ambiguous\<close>.
\<close>

theorem select_list_ambiguous_kind_unset:
  "checkCall testState (testCall ''select id from users, videos;'' []) selectIdUsersVideos =
     Inr [ErrIdent \<lparr>ie_Kind = Unknown, ie_Schema = [], ie_Table = [], ie_Column = ''id'',
            ie_Location = 7, ie_Fn = testCall ''select id from users, videos;'' []\<rparr>]
   \<and> Unknown \<noteq> Ambiguous
   \<and> checkColumnRef (testCall ''select id from users, videos;'' []) usersVideosScope
         [String ''id''] 7 =
     Inr [ErrIdent \<lparr>ie_Kind = Ambiguous, ie_Schema = [], ie_Table = [], ie_Column = ''id'',
            ie_Location = 7, ie_Fn = testCall ''select id from users, videos;'' []\<rparr>]"
  by (simp add: checkCall_def checkSelect.simps selectIdUsersVideos_def testState_def testCatalog_def
      usersTable_def videosTable_def commentsTable_def tagVideosTable_def intColumn_def
      textColumn_def testCall_def tableRef_def NewScope_def addTable_def
      pushTable_def selectTarget_def fieldString_def get_def has_def identErrNoKind_def
      checkColumnRef_def fieldsPrefix_def usersVideosScope_def popTable_def Unknown_def
      Ambiguous_def scopeRetOk_def scopeRetUnknown_def scopeRetAmbiguous_def)

text \<open>
  Claim C6. When a binary expression pairs, in either order, a column reference that
  resolves in the scope (status \<open>scopeRetOk\<close> and a column record) with a parameter
  reference \<open>$n\<close> where \<open>n - 1\<close> is at least the number of argument types of the call,
  the type check returns a \<open>TypeErr\<close> with call type \<open><none>\<close>, the driver and database
  type of the resolved column and parameter \<open>n\<close>, and it is the only diagnostic of the
  expression.
\<close>

theorem typeCheck_parameter_without_argument:
  assumes fields: "fieldsPrefix items = Inr (schema, table, offset)"
      "offset < length items" "items ! offset = String column"
    and resolved: "get scope schema table column = Inr (Some col, scopeRetOk)"
    and beyond: "n - 1 \<ge> int (length (ArgTypes fn))"
  shows "typeCheck state fn scope (ColumnRef items loc) (ParamRef n ploc) =
           Inr (Some (ErrType \<lparr>te_Schema = schema, te_Table = table, te_Column = column,
             te_CallType = ''<none>'', te_DriverType = Type col, te_DBType = DBType col,
             te_Parameter = n, te_Location = ploc, te_Fn = fn\<rparr>))
       \<and> typeCheck state fn scope (ParamRef n ploc) (ColumnRef items loc) =
           Inr (Some (ErrType \<lparr>te_Schema = schema, te_Table = table, te_Column = column,
             te_CallType = ''<none>'', te_DriverType = Type col, te_DBType = DBType col,
             te_Parameter = n, te_Location = ploc, te_Fn = fn\<rparr>))
       \<and> checkCallRecurse state fn scope (A_Expr (ColumnRef items loc) (ParamRef n ploc)) =
           Inr ([ErrType \<lparr>te_Schema = schema, te_Table = table, te_Column = column,
             te_CallType = ''<none>'', te_DriverType = Type col, te_DBType = DBType col,
             te_Parameter = n, te_Location = ploc, te_Fn = fn\<rparr>], scope)
       \<and> checkCallRecurse state fn scope (A_Expr (ParamRef n ploc) (ColumnRef items loc)) =
           Inr ([ErrType \<lparr>te_Schema = schema, te_Table = table, te_Column = column,
             te_CallType = ''<none>'', te_DriverType = Type col, te_DBType = DBType col,
             te_Parameter = n, te_Location = ploc, te_Fn = fn\<rparr>], scope)"
proof -
  let ?e = "ErrType \<lparr>te_Schema = schema, te_Table = table, te_Column = column,
             te_CallType = ''<none>'', te_DriverType = Type col, te_DBType = DBType col,
             te_Parameter = n, te_Location = ploc, te_Fn = fn\<rparr>"
  have pair: "typeCheckPair state fn scope items n ploc = Inr (Some ?e)"
    using fields resolved beyond by (simp add: typeCheckPair_def mkTypeErr_def)
  have t1: "typeCheck state fn scope (ColumnRef items loc) (ParamRef n ploc) = Inr (Some ?e)"
    by (simp add: typeCheck_def pair)
  have t2: "typeCheck state fn scope (ParamRef n ploc) (ColumnRef items loc) = Inr (Some ?e)"
    by (simp add: typeCheck_def pair)
  have c: "checkColumnRef fn scope items loc = Inr []"
    using fields has_of_get [OF resolved] by (simp add: checkColumnRef_def)
  have r1: "checkCallRecurse state fn scope (A_Expr (ColumnRef items loc) (ParamRef n ploc)) =
      Inr ([?e], scope)"
    by (simp add: c t1)
  have r2: "checkCallRecurse state fn scope (A_Expr (ParamRef n ploc) (ColumnRef items loc)) =
      Inr ([?e], scope)"
    by (simp add: c t2)
  from t1 t2 r1 r2 show ?thesis by simp
qed

theorem typeCheck_parameter_without_argument_witness:
  "fieldsPrefix [String ''u'', String ''id''] = Inr ([], ''u'', 1)
   \<and> get aliasedUsersScope [] ''u'' ''id'' = Inr (Some (intColumn ''id''), scopeRetOk)
   \<and> 2 - 1 \<ge> int (length (ArgTypes (testCall ''select u.id from users u where u.id = $2'' [''int''])))
   \<and> checkCallRecurse testState (testCall ''select u.id from users u where u.id = $2'' [''int''])
        aliasedUsersScope (A_Expr (ColumnRef [String ''u'', String ''id''] 35) (ParamRef 2 42)) =
      Inr ([ErrType \<lparr>te_Schema = [], te_Table = ''u'', te_Column = ''id'',
             te_CallType = ''<none>'', te_DriverType = ''int'', te_DBType = ''integer'',
             te_Parameter = 2, te_Location = 42,
             te_Fn = testCall ''select u.id from users u where u.id = $2'' [''int'']\<rparr>],
           aliasedUsersScope)"
proof -
  let ?fn = "testCall ''select u.id from users u where u.id = $2'' [''int'']"
  have f: "fieldsPrefix [String ''u'', String ''id''] = Inr ([], ''u'', 1)"
    by (simp add: fieldsPrefix_def)
  have i: "(1::nat) < length [String ''u'', String ''id'']"
      "[String ''u'', String ''id''] ! 1 = String ''id''"
    by simp_all
  have g: "get aliasedUsersScope [] ''u'' ''id'' = Inr (Some (intColumn ''id''), scopeRetOk)"
    by (simp add: get_def aliasedUsersScope_def usersTable_def intColumn_def textColumn_def)
  have b: "2 - 1 \<ge> int (length (ArgTypes ?fn))"
    by (simp add: testCall_def)
  from typeCheck_parameter_without_argument [OF f i g b, of testState 35 42] f g b
  show ?thesis by (simp add: intColumn_def)
qed

text \<open>
  Claim C7, evaluated on the code. The driver type \<open>null.Bool\<close> has the declared import
  \<open>github.com/volatiletech/null\<close>, whose last segment is the package \<open>null\<close> of the
  type, and the argument type equals the driver type. The type check still returns
  the generic lookup error: its loop compares the last segment with \<open>splits[1]\<close>,
  the part of the type after the dot.
\<close>

theorem dotted_driver_type_import_rejected:
  "checkCall nullBoolState (testCall ''delete from flags where active = $1'' [''null.Bool''])
      deleteFlagsActive =
     Inr [ErrGeneric ''failed to lookup package for driver type: null.Bool'']
   \<and> path_Base (strings_Trim nullImport [CHR 0x22]) = ''null''
   \<and> strings_Split ''null.Bool'' (CHR ''.'') = [''null'', ''Bool'']"
  by (simp add: checkCall_def checkDelete.simps deleteFlagsActive_def nullBoolState_def flagsTable_def
      nullImport_def intColumn_def testCall_def NewScope_def addTable_def pushTable_def
      typeCheck_def typeCheckPair_def fieldsPrefix_def get_def has_def checkColumnRef_def
      importsBasedOnType_def strings_Trim_def path_Base_def popTable_def
      scopeRetOk_def scopeRetUnknown_def scopeRetAmbiguous_def)

section \<open>The scope is restored\<close>

lemma pushedOn_same: "pushedOn s 0 s"
  unfolding pushedOn_def
  by (rule exI [of _ "[]"], rule exI [of _ "[]"]) simp

lemma pushedOn_trans:
  assumes "pushedOn s n s1" and "pushedOn s1 m s2"
  shows "pushedOn s (n + m) s2"
proof -
  from assms(1) obtain ts als where
    1: "s1 = s\<lparr>aliases := aliases s @ als, tables := tables s @ ts\<rparr>"
      "length ts = n" "length als = n"
    unfolding pushedOn_def by blast
  from assms(2) obtain ts' als' where
    2: "s2 = s1\<lparr>aliases := aliases s1 @ als', tables := tables s1 @ ts'\<rparr>"
      "length ts' = m" "length als' = m"
    unfolding pushedOn_def by blast
  from 1 2 have "s2 = s\<lparr>aliases := aliases s @ (als @ als'), tables := tables s @ (ts @ ts')\<rparr>
      \<and> length (ts @ ts') = n + m \<and> length (als @ als') = n + m"
    by simp
  then show ?thesis unfolding pushedOn_def by blast
qed

lemma pushedOn_lengths:
  "pushedOn s n s' \<Longrightarrow>
   length (tables s') = length (tables s) + n \<and> length (aliases s') = length (aliases s) + n
   \<and> outputNames s' = outputNames s \<and> info s' = info s"
  unfolding pushedOn_def by auto

lemma pushPseudoTable_pushedOn: "pushedOn s 1 (pushPseudoTable s a t)"
  unfolding pushedOn_def pushPseudoTable_def
  by (rule exI [of _ "[t]"], rule exI [of _ "[a]"]) simp

lemma addTable_cases:
  "addTable fn s r = Inr (n, es, s') \<Longrightarrow>
   (n = 0 \<and> s' = s) \<or>
   (n = 1 \<and> (\<exists>t a. s' = s\<lparr>aliases := aliases s @ [a], tables := tables s @ [t]\<rparr>))"
  by (auto simp: addTable_def pushTable_def Let_def split: option.splits sum.splits if_splits)

lemma addTable_pushedOn:
  assumes "addTable fn s r = Inr (n, es, s')"
  shows "pushedOn s n s'"
proof -
  from addTable_cases [OF assms] show ?thesis
  proof
    assume "n = 0 \<and> s' = s"
    then show ?thesis by (simp add: pushedOn_same)
  next
    assume "n = 1 \<and> (\<exists>t a. s' = s\<lparr>aliases := aliases s @ [a], tables := tables s @ [t]\<rparr>)"
    then obtain t a where "s' = s\<lparr>aliases := aliases s @ [a], tables := tables s @ [t]\<rparr>"
      and "n = 1" by blast
    then have "s' = s\<lparr>aliases := aliases s @ [a], tables := tables s @ [t]\<rparr>
        \<and> length [t] = n \<and> length [a] = n"
      by simp
    then show ?thesis unfolding pushedOn_def by blast
  qed
qed

lemma popTables_appended:
  "length ts = n \<Longrightarrow> length als = n \<Longrightarrow>
   popTables n (s\<lparr>aliases := aliases s @ als, tables := tables s @ ts\<rparr>) = Inr s"
proof (induction n arbitrary: ts als)
  case 0
  then show ?case by simp
next
  case (Suc n)
  from Suc.prems obtain ts' t where ts: "ts = ts' @ [t]" "length ts' = n"
    by (cases ts rule: rev_cases) auto
  from Suc.prems obtain als' a where als: "als = als' @ [a]" "length als' = n"
    by (cases als rule: rev_cases) auto
  show ?case
    using Suc.IH [OF ts(2) als(2)]
    by (simp add: ts als popTable_def butlast_append)
qed

lemma popTables_pushedOn: "pushedOn s n s' \<Longrightarrow> popTables n s' = Inr s"
  unfolding pushedOn_def by (auto simp: popTables_appended)

lemma pushOutputNames_append:
  "pushOutputNames s refs = s\<lparr>outputNames := outputNames s @ refs\<rparr>"
  by (induction refs arbitrary: s) (simp_all add: pushOutputName_def)

lemma popOutputNames_appended:
  "length refs = n \<Longrightarrow>
   popOutputNames n (s\<lparr>outputNames := outputNames s @ refs\<rparr>) = Inr s"
proof (induction n arbitrary: refs)
  case 0
  then show ?case by simp
next
  case (Suc n)
  from Suc.prems obtain refs' r where refs: "refs = refs' @ [r]" "length refs' = n"
    by (cases refs rule: rev_cases) auto
  show ?case
    using Suc.IH [OF refs(2)]
    by (simp add: refs popOutputName_def butlast_append)
qed

lemma popOutputNames_pushed:
  "popOutputNames (length refs) (pushOutputNames s refs) = Inr s"
  by (simp add: pushOutputNames_append popOutputNames_appended)

text \<open>
  Every function of the checker that returns hands the scope back as it received
  it; the loop over the from clause hands it back with the tables it pushed.
\<close>

lemma scope_restored_recurse:
  "\<forall>errs s'. checkCallRecurse state fn scope n = Inr (errs, s') \<longrightarrow> s' = scope"
  and scope_restored_each:
  "\<forall>errs s'. descendEach state fn scope ns = Inr (errs, s') \<longrightarrow> s' = scope"
  and scope_restored_select:
  "\<forall>res s'. checkSelect state fn scope larg rarg fromClause whereClause havingClause
          targetList groupClause sortClause = Inr (res, s') \<longrightarrow> s' = scope"
  and scope_pushed_from:
  "\<forall>n' errs' s'. fromLoop state fn scope stack nTables errs0 = Inr ((n', errs'), s') \<longrightarrow>
         nTables \<le> n' \<and> pushedOn scope (n' - nTables) s'"
  and scope_restored_update:
  "\<forall>errs s'. checkUpdate state fn scope relation targetList whereClause = Inr (errs, s')
         \<longrightarrow> s' = scope"
  and scope_restored_insert:
  "\<forall>errs s'. checkInsert state fn scope relation cols = Inr (errs, s') \<longrightarrow> s' = scope"
  and scope_restored_delete:
  "\<forall>errs s'. checkDelete state fn scope relation whereClause = Inr (errs, s')
         \<longrightarrow> s' = scope"
proof (induction state fn scope n and state fn scope ns
    and state fn scope larg rarg fromClause whereClause havingClause targetList groupClause sortClause
    and state fn scope stack nTables errs0
    and state fn scope relation targetList whereClause
    and state fn scope relation cols
    and state fn scope relation whereClause
    rule: checkCallRecurse_descendEach_checkSelect_fromLoop_checkUpdate_checkInsert_checkDelete.induct)
  case 1 then show ?case by simp
next
  case 2 then show ?case by simp
next
  case 3 then show ?case by (auto split: sum.splits)
next
  case 4 then show ?case by simp
next
  case 5 then show ?case by simp
next
  case 6 then show ?case by simp
next
  case 7 then show ?case by simp
next
  case 8 then show ?case by simp
next
  case (9 state fn scope lexpr rexpr)
  show ?case
  proof (intro allI impI)
    fix errs s'
    assume a: "checkCallRecurse state fn scope (A_Expr lexpr rexpr) = Inr (errs, s')"
    then obtain e1 s1 where r1: "checkCallRecurse state fn scope lexpr = Inr (e1, s1)"
      by (cases "checkCallRecurse state fn scope lexpr") auto
    with a obtain e2 s2 where r2: "checkCallRecurse state fn s1 rexpr = Inr (e2, s2)"
      by (cases "checkCallRecurse state fn s1 rexpr") auto
    from a r1 r2 have "s' = s2" by (auto split: sum.splits option.splits)
    moreover from "9.IH"(1) r1 have "s1 = scope" by blast
    moreover from "9.IH"(2) [OF r1 refl] r2 have "s2 = s1" by blast
    ultimately show "s' = scope" by simp
  qed
next
  case 10 then show ?case by simp
next
  case 11 then show ?case by (auto split: sum.splits)
next
  case 12 then show ?case by simp
next
  case 13 then show ?case by simp
next
  case 14 then show ?case by simp
next
  case (15 state fn scope name val location)
  show ?case
  proof (intro allI impI)
    fix errs s'
    assume a: "checkCallRecurse state fn scope (ResTarget name val location) = Inr (errs, s')"
    then obtain e1 where r1: "checkResTargetName fn scope name location = Inr e1"
      by (cases "checkResTargetName fn scope name location") auto
    show "s' = scope"
    proof (cases "val = NilNode")
      case True
      with a r1 show ?thesis by simp
    next
      case False
      with a r1 obtain e2 where "checkCallRecurse state fn scope val = Inr (e2, s')"
        by (cases "checkCallRecurse state fn scope val") auto
      with "15.IH" [OF r1 False] show ?thesis by blast
    qed
  qed
next
  case 16 then show ?case by simp
next
  case 17 then show ?case by simp
next
  case 18 then show ?case by simp
next
  case 19 then show ?case by simp
next
  case 20 then show ?case by simp
next
  case 21 then show ?case by simp
next
  case (22 state fn scope x xs)
  show ?case
  proof (intro allI impI)
    fix errs s'
    assume a: "descendEach state fn scope (x # xs) = Inr (errs, s')"
    then obtain e1 s1 where r1: "checkCallRecurse state fn scope x = Inr (e1, s1)"
      by (cases "checkCallRecurse state fn scope x") auto
    with a obtain e2 where r2: "descendEach state fn s1 xs = Inr (e2, s')"
      by (cases "descendEach state fn s1 xs") auto
    from "22.IH"(1) r1 have "s1 = scope" by blast
    moreover from "22.IH"(2) [OF r1 refl] r2 have "s' = s1" by blast
    ultimately show "s' = scope" by simp
  qed
next
  case (23 state fn scope larg rarg fromClause whereClause havingClause targetList
      groupClause sortClause)
  show ?case
  proof (intro allI impI)
    fix res s'
    assume a: "checkSelect state fn scope larg rarg fromClause whereClause havingClause
        targetList groupClause sortClause = Inr (res, s')"
    show "s' = scope"
    proof (cases "larg \<noteq> None \<and> rarg \<noteq> None")
      case True
      from a True obtain e1 s1 where r1: "checkCallRecurse state fn scope (the larg) = Inr (e1, s1)"
        by (cases "checkCallRecurse state fn scope (the larg)") (auto simp: checkSelect.simps)
      from a True r1 obtain e2 where r2: "checkCallRecurse state fn s1 (the rarg) = Inr (e2, s')"
        by (cases "checkCallRecurse state fn s1 (the rarg)") (auto simp: checkSelect.simps)
      from "23.IH"(1) [OF True] r1 have "s1 = scope" by blast
      moreover from "23.IH"(2) [OF True r1 refl] r2 have "s' = s1" by blast
      ultimately show ?thesis by simp
    next
      case False
      from a False obtain n1 e1 s1 where
        f: "fromLoop state fn scope (rev fromClause) 0 [] = Inr ((n1, e1), s1)"
        by (cases "fromLoop state fn scope (rev fromClause) 0 []")
           (auto simp: checkSelect.simps)
      from a False f obtain e2 s2 where
        w: "checkCallRecurse state fn s1 whereClause = Inr (e2, s2)"
        by (cases "checkCallRecurse state fn s1 whereClause") (auto simp: checkSelect.simps)
      from a False f w obtain e3 s3 where
        h: "checkCallRecurse state fn s2 havingClause = Inr (e3, s3)"
        by (cases "checkCallRecurse state fn s2 havingClause") (auto simp: checkSelect.simps)
      from a False f w h obtain refs e4 where
        t: "selectTargets fn s3 targetList [] (e1 @ e2 @ e3) = Inr (refs, e4)"
        by (cases "selectTargets fn s3 targetList [] (e1 @ e2 @ e3)")
           (auto simp: checkSelect.simps)
      from a False f w h t obtain e5 s5 where
        g: "descendEach state fn (pushOutputNames s3 refs) groupClause = Inr (e5, s5)"
        by (cases "descendEach state fn (pushOutputNames s3 refs) groupClause")
           (auto simp: checkSelect.simps)
      from a False f w h t g obtain e6 s6 where
        o: "descendEach state fn s5 sortClause = Inr (e6, s6)"
        by (cases "descendEach state fn s5 sortClause") (auto simp: checkSelect.simps)
      from a False f w h t g o obtain s7 where
        po: "popOutputNames (length refs) s6 = Inr s7"
        by (cases "popOutputNames (length refs) s6") (auto simp: checkSelect.simps)
      from a False f w h t g o po have pt: "popTables n1 s7 = Inr s'"
        by (cases "popTables n1 s7") (auto simp: checkSelect.simps)
      from "23.IH"(3) [OF False] f have p1: "pushedOn scope n1 s1" by fastforce
      from "23.IH"(4) [OF False f refl refl] w have "s2 = s1" by blast
      moreover from "23.IH"(5) [OF False f refl refl w refl] h have "s3 = s2" by blast
      moreover from "23.IH"(6) [OF False f refl refl w refl h refl t refl] g
      have "s5 = pushOutputNames s3 refs" by blast
      moreover from "23.IH"(7) [OF False f refl refl w refl h refl t refl g refl] o
      have "s6 = s5" by blast
      ultimately have "s6 = pushOutputNames s1 refs" by simp
      with po have "s7 = s1" by (simp add: popOutputNames_pushed)
      with pt popTables_pushedOn [OF p1] show ?thesis by simp
    qed
  qed
next
  case 24 then show ?case by (simp add: pushedOn_same)
next
  case (25 state fn scope popped stack nTables errs)
  show ?case
  proof (intro allI impI)
    fix n' errs' s'
    assume a: "fromLoop state fn scope (popped # stack) nTables errs = Inr ((n', errs'), s')"
    show "nTables \<le> n' \<and> pushedOn scope (n' - nTables) s'"
    proof (cases popped)
      case (RangeVarNode r)
      from a RangeVarNode obtain k es sc where ad: "addTable fn scope r = Inr (k, es, sc)"
        by (cases "addTable fn scope r") auto
      with a RangeVarNode have
        "fromLoop state fn sc stack (nTables + k) (errs @ es) = Inr ((n', errs'), s')"
        by simp
      with "25.IH"(5) [OF RangeVarNode ad refl refl]
      have le: "nTables + k \<le> n'" and p: "pushedOn sc (n' - (nTables + k)) s'" by blast+
      from le have "k + (n' - (nTables + k)) = n' - nTables" by simp
      with pushedOn_trans [OF addTable_pushedOn [OF ad] p] le show ?thesis by simp
    next
      case (JoinExpr l r q)
      with a have "fromLoop state fn scope (l # r # q # stack) nTables errs = Inr ((n', errs'), s')"
        by simp
      with "25.IH"(6) [OF JoinExpr] show ?thesis by blast
    next
      case (A_Expr l r)
      from a A_Expr obtain es sc where r1: "checkCallRecurse state fn scope popped = Inr (es, sc)"
        by (cases "checkCallRecurse state fn scope popped") (auto simp del: checkCallRecurse.simps)
      with a A_Expr have
        "fromLoop state fn sc stack nTables (errs @ es) = Inr ((n', errs'), s')"
        by (simp del: checkCallRecurse.simps)
      with "25.IH"(2) [OF A_Expr r1 refl]
      have "nTables \<le> n' \<and> pushedOn sc (n' - nTables) s'" by blast
      moreover from "25.IH"(1) [OF A_Expr] r1 have "sc = scope" by blast
      ultimately show ?thesis by simp
    next
      case (BoolExpr args)
      from a BoolExpr obtain es sc where r1: "checkCallRecurse state fn scope popped = Inr (es, sc)"
        by (cases "checkCallRecurse state fn scope popped") (auto simp del: checkCallRecurse.simps)
      with a BoolExpr have
        "fromLoop state fn sc stack nTables (errs @ es) = Inr ((n', errs'), s')"
        by (simp del: checkCallRecurse.simps)
      with "25.IH"(4) [OF BoolExpr r1 refl]
      have "nTables \<le> n' \<and> pushedOn sc (n' - nTables) s'" by blast
      moreover from "25.IH"(3) [OF BoolExpr] r1 have "sc = scope" by blast
      ultimately show ?thesis by simp
    next
      case (RangeSubselect lateral subquery aliasp)
      from a RangeSubselect obtain al where al: "aliasp = Some al"
        by (cases aliasp) auto
      from a RangeSubselect al obtain l r f w h t g so where
        sq: "subquery = SelectStmt l r f w h t g so"
        by (cases subquery) auto
      let ?sub = "if lateral then clone scope else NewScope (info scope)"
      from a RangeSubselect al sq obtain m es sc where
        cs: "checkSelect state fn ?sub l r f w h t g so = Inr ((m, es), sc)"
        by (cases "checkSelect state fn ?sub l r f w h t g so") auto
      from a RangeSubselect al sq cs obtain an where an: "Aliasname al = Some an"
        by (cases "Aliasname al") auto
      let ?pushed = "pushPseudoTable scope an (outputColsToPseudoTable an m)"
      from a RangeSubselect al sq cs an have
        "fromLoop state fn ?pushed stack (nTables + 1) (errs @ es) = Inr ((n', errs'), s')"
        by simp
      with "25.IH"(8) [OF RangeSubselect al sq cs refl refl an]
      have le: "nTables + 1 \<le> n'" and p: "pushedOn ?pushed (n' - (nTables + 1)) s'" by blast+
      from le have "1 + (n' - (nTables + 1)) = n' - nTables" by simp
      with pushedOn_trans [OF pushPseudoTable_pushedOn p] le show ?thesis by simp
    qed (use a in simp_all)
  qed
next
  case (26 state fn scope relation targetList whereClause)
  show ?case
  proof (intro allI impI)
    fix errs s'
    assume a: "checkUpdate state fn scope relation targetList whereClause = Inr (errs, s')"
    then obtain r where rel: "relation = Some r"
      by (cases relation) (auto simp: checkUpdate.simps)
    from a rel obtain k e1 s1 where ad: "addTable fn scope r = Inr (k, e1, s1)"
      by (cases "addTable fn scope r") (auto simp: checkUpdate.simps)
    from a rel ad obtain e2 s2 where d: "descendEach state fn s1 targetList = Inr (e2, s2)"
      by (cases "descendEach state fn s1 targetList") (auto simp: checkUpdate.simps)
    from a rel ad d obtain e3 s3 where w: "checkCallRecurse state fn s2 whereClause = Inr (e3, s3)"
      by (cases "checkCallRecurse state fn s2 whereClause") (auto simp: checkUpdate.simps)
    from a rel ad d w have pt: "popTables k s3 = Inr s'"
      by (cases "popTables k s3") (auto simp: checkUpdate.simps)
    from "26.IH"(1) [OF rel ad refl refl] d have "s2 = s1" by blast
    moreover from "26.IH"(2) [OF rel ad refl refl d refl] w have "s3 = s2" by blast
    ultimately have "s3 = s1" by simp
    with pt popTables_pushedOn [OF addTable_pushedOn [OF ad]] show "s' = scope" by simp
  qed
next
  case (27 state fn scope relation cols)
  show ?case
  proof (intro allI impI)
    fix errs s'
    assume a: "checkInsert state fn scope relation cols = Inr (errs, s')"
    then obtain r where rel: "relation = Some r"
      by (cases relation) (auto simp: checkInsert.simps)
    from a rel obtain k e1 s1 where ad: "addTable fn scope r = Inr (k, e1, s1)"
      by (cases "addTable fn scope r") (auto simp: checkInsert.simps)
    from a rel ad obtain e2 s2 where d: "descendEach state fn s1 cols = Inr (e2, s2)"
      by (cases "descendEach state fn s1 cols") (auto simp: checkInsert.simps)
    from a rel ad d have pt: "popTables k s2 = Inr s'"
      by (cases "popTables k s2") (auto simp: checkInsert.simps)
    from "27.IH" [OF rel ad refl refl] d have "s2 = s1" by blast
    with pt popTables_pushedOn [OF addTable_pushedOn [OF ad]] show "s' = scope" by simp
  qed
next
  case (28 state fn scope relation whereClause)
  show ?case
  proof (intro allI impI)
    fix errs s'
    assume a: "checkDelete state fn scope relation whereClause = Inr (errs, s')"
    then obtain r where rel: "relation = Some r"
      by (cases relation) (auto simp: checkDelete.simps)
    from a rel obtain k e1 s1 where ad: "addTable fn scope r = Inr (k, e1, s1)"
      by (cases "addTable fn scope r") (auto simp: checkDelete.simps)
    from a rel ad obtain e2 s2 where w: "checkCallRecurse state fn s1 whereClause = Inr (e2, s2)"
      by (cases "checkCallRecurse state fn s1 whereClause") (auto simp: checkDelete.simps)
    from a rel ad w have pt: "popTables k s2 = Inr s'"
      by (cases "popTables k s2") (auto simp: checkDelete.simps)
    from "28.IH" [OF rel ad refl refl] w have "s2 = s1" by blast
    with pt popTables_pushedOn [OF addTable_pushedOn [OF ad]] show "s' = scope" by simp
  qed
qed

text \<open>
  Claim C5. \<open>pushTable\<close>, \<open>pushPseudoTable\<close>, \<open>popTable\<close> and \<open>clone\<close> keep the tables
  and aliases stacks at equal lengths, and each of \<open>checkSelect\<close>, \<open>checkUpdate\<close>,
  \<open>checkInsert\<close> and \<open>checkDelete\<close>, when it returns, returns the scope it was given:
  the tables, aliases and output names stacks are what they were on entry, so at the
  lengths they had on entry; that holds whether or not \<open>pushTable\<close> succeeded.
\<close>

theorem scope_stacks_balanced:
  "(length (tables s) = length (aliases s) \<longrightarrow>
      length (tables (snd (pushTable s schema table al)))
        = length (aliases (snd (pushTable s schema table al)))
      \<and> length (tables (pushPseudoTable s al data)) = length (aliases (pushPseudoTable s al data))
      \<and> length (tables (clone s)) = length (aliases (clone s))
      \<and> (\<forall>s'. popTable s = Inr s' \<longrightarrow> length (tables s') = length (aliases s')))
   \<and> (\<forall>res s'. checkSelect state fn s larg rarg fromClause whereClause havingClause
          targetList groupClause sortClause = Inr (res, s') \<longrightarrow>
        s' = s \<and> length (tables s') = length (tables s)
        \<and> length (aliases s') = length (aliases s)
        \<and> length (outputNames s') = length (outputNames s))
   \<and> (\<forall>errs s'. checkUpdate state fn s relation targetList whereClause = Inr (errs, s') \<longrightarrow>
        s' = s \<and> length (tables s') = length (tables s)
        \<and> length (aliases s') = length (aliases s)
        \<and> length (outputNames s') = length (outputNames s))
   \<and> (\<forall>errs s'. checkInsert state fn s relation cols = Inr (errs, s') \<longrightarrow>
        s' = s \<and> length (tables s') = length (tables s)
        \<and> length (aliases s') = length (aliases s)
        \<and> length (outputNames s') = length (outputNames s))
   \<and> (\<forall>errs s'. checkDelete state fn s relation whereClause = Inr (errs, s') \<longrightarrow>
        s' = s \<and> length (tables s') = length (tables s)
        \<and> length (aliases s') = length (aliases s)
        \<and> length (outputNames s') = length (outputNames s))"
proof -
  have ops: "length (tables s) = length (aliases s) \<longrightarrow>
      length (tables (snd (pushTable s schema table al)))
        = length (aliases (snd (pushTable s schema table al)))
      \<and> length (tables (pushPseudoTable s al data)) = length (aliases (pushPseudoTable s al data))
      \<and> length (tables (clone s)) = length (aliases (clone s))
      \<and> (\<forall>s'. popTable s = Inr s' \<longrightarrow> length (tables s') = length (aliases s'))"
    by (auto simp: pushTable_def pushPseudoTable_def clone_def popTable_def
        split: option.splits if_splits)
  have sel: "s' = s" if "checkSelect state fn s larg rarg fromClause whereClause havingClause
          targetList groupClause sortClause = Inr (res, s')" for res s'
    using that scope_restored_select by blast
  have upd: "s' = s"
    if "checkUpdate state fn s relation targetList whereClause = Inr (errs, s')" for errs s'
    using that scope_restored_update by blast
  have ins: "s' = s" if "checkInsert state fn s relation cols = Inr (errs, s')" for errs s'
    using that scope_restored_insert by blast
  have del: "s' = s" if "checkDelete state fn s relation whereClause = Inr (errs, s')" for errs s'
    using that scope_restored_delete by blast
  from ops sel upd ins del show ?thesis by blast
qed

theorem scope_stacks_balanced_witness:
  "length (tables usersVideosScope) = length (aliases usersVideosScope)
   \<and> pushTable usersVideosScope [] ''nosuch'' [] = (False, usersVideosScope)
   \<and> length (tables (snd (pushTable usersVideosScope [] ''comments'' ''c'')))
      = length (aliases (snd (pushTable usersVideosScope [] ''comments'' ''c'')))
   \<and> (\<exists>res. checkSelect testState (testCall ''select id from nosuch'' []) usersVideosScope
         None None [tableRef ''nosuch'' 15] NilNode NilNode
         [ResTarget None (ColumnRef [String ''id''] 7) 7] [] [] = Inr (res, usersVideosScope))
   \<and> length (tables usersVideosScope) = 2"
proof -
  let ?fn = "testCall ''select id from nosuch'' []"
  have l: "length (tables usersVideosScope) = length (aliases usersVideosScope)"
    "length (tables usersVideosScope) = 2"
    by (simp_all add: usersVideosScope_def)
  have p: "pushTable usersVideosScope [] ''nosuch'' [] = (False, usersVideosScope)"
    by (simp add: pushTable_def usersVideosScope_def testCatalog_def usersTable_def
        videosTable_def commentsTable_def tagVideosTable_def)
  have r: "checkSelect testState ?fn usersVideosScope
         None None [tableRef ''nosuch'' 15] NilNode NilNode
         [ResTarget None (ColumnRef [String ''id''] 7) 7] [] [] =
       Inr (([], [identErrNoKind [] ''nosuch'' [] 15 ?fn, identErrNoKind [] [] ''id'' 7 ?fn]),
            usersVideosScope)"
    by (simp add: checkSelect.simps tableRef_def addTable_def pushTable_def selectTarget_def
        fieldString_def get_def usersVideosScope_def testCatalog_def usersTable_def
        videosTable_def commentsTable_def tagVideosTable_def intColumn_def textColumn_def
        scopeRetOk_def scopeRetUnknown_def scopeRetAmbiguous_def)
  from scope_stacks_balanced [of usersVideosScope "[]" "''comments''" "''c''" usersTable
      testState ?fn None None "[tableRef ''nosuch'' 15]" NilNode NilNode
      "[ResTarget None (ColumnRef [String ''id''] 7) 7]" "[]" "[]"] l
  have "length (tables (snd (pushTable usersVideosScope [] ''comments'' ''c'')))
      = length (aliases (snd (pushTable usersVideosScope [] ''comments'' ''c'')))"
    by blast
  with l p r show ?thesis by blast
qed

lemma selectTarget_alike:
  "alikeTargets a b \<Longrightarrow> selectTarget fn scope a = selectTarget fn scope b"
  by (auto simp: alikeTargets_def selectTarget_def isColumnRef_def split: Node.splits)

lemma selectTargets_alike:
  "list_all2 alikeTargets xs ys \<Longrightarrow>
   selectTargets fn scope xs addRefs errs = selectTargets fn scope ys addRefs errs"
proof (induction xs ys arbitrary: addRefs errs rule: list_all2_induct)
  case Nil
  then show ?case by simp
next
  case (Cons x xs y ys)
  then show ?case
    by (simp add: selectTarget_alike [of x y] split: sum.splits option.splits prod.splits)
qed

text \<open>
  Claim C10. \<open>checkSelect\<close> never descends into a select-list target whose value is
  not a column reference: such a target yields its output name with no column and no
  diagnostic, whatever its value is, and replacing the values of such targets by any
  other values that are not column references changes neither the diagnostics, nor
  the output columns, nor the scope that \<open>checkSelect\<close> and \<open>checkCallRecurse\<close>
  return for the select statement.
\<close>

theorem select_list_values_not_descended:
  assumes "list_all2 alikeTargets targetList targetList'"
  shows "checkSelect state fn scope larg rarg fromClause whereClause havingClause
            targetList groupClause sortClause =
         checkSelect state fn scope larg rarg fromClause whereClause havingClause
            targetList' groupClause sortClause
       \<and> checkCallRecurse state fn scope (SelectStmt larg rarg fromClause whereClause
            havingClause targetList groupClause sortClause) =
         checkCallRecurse state fn scope (SelectStmt larg rarg fromClause whereClause
            havingClause targetList' groupClause sortClause)
       \<and> (\<forall>name val location. \<not> isColumnRef val \<longrightarrow>
            selectTarget fn scope (ResTarget name val location) =
              Inr (Some \<lparr>ocr_name = (case name of None \<Rightarrow> [] | Some n \<Rightarrow> n),
                        ocr_col = None\<rparr>, []))"
proof -
  have s: "checkSelect state fn scope larg rarg fromClause whereClause havingClause
            targetList groupClause sortClause =
         checkSelect state fn scope larg rarg fromClause whereClause havingClause
            targetList' groupClause sortClause"
    by (simp only: checkSelect.simps selectTargets_alike [OF assms])
  have r: "checkCallRecurse state fn scope (SelectStmt larg rarg fromClause whereClause
            havingClause targetList groupClause sortClause) =
         checkCallRecurse state fn scope (SelectStmt larg rarg fromClause whereClause
            havingClause targetList' groupClause sortClause)"
    by (simp only: checkCallRecurse.simps s)
  have t: "selectTarget fn scope (ResTarget name val location) =
              Inr (Some \<lparr>ocr_name = (case name of None \<Rightarrow> [] | Some n \<Rightarrow> n),
                        ocr_col = None\<rparr>, [])"
    if "\<not> isColumnRef val" for name val location
    using that by (auto simp: selectTarget_def isColumnRef_def split: Node.splits)
  from s r t show ?thesis by blast
qed

theorem select_list_values_not_descended_witness:
  "list_all2 alikeTargets
     [ResTarget None (FuncCall [ColumnRef [String ''nosuch''] 13]) 7,
      ResTarget None (ParamRef 7 22) 22]
     [ResTarget None (OtherNode []) 7, ResTarget None (OtherNode []) 10]
   \<and> checkCallRecurse testState (testCall ''select count(nosuch), $7 from users'' [])
        (NewScope testCatalog) selectCountNosuch = Inr ([], NewScope testCatalog)"
proof -
  let ?fn = "testCall ''select count(nosuch), $7 from users'' []"
  have a: "list_all2 alikeTargets
     [ResTarget None (FuncCall [ColumnRef [String ''nosuch''] 13]) 7,
      ResTarget None (ParamRef 7 22) 22]
     [ResTarget None (OtherNode []) 7, ResTarget None (OtherNode []) 10]"
    by (simp add: alikeTargets_def isColumnRef_def)
  have e: "checkCallRecurse testState ?fn (NewScope testCatalog) selectTwoConstants =
      Inr ([], NewScope testCatalog)"
    by (simp add: selectTwoConstants_def checkSelect.simps tableRef_def addTable_def
        pushTable_def NewScope_def testCatalog_def usersTable_def selectTarget_def
        popTable_def pushOutputName_def popOutputName_def)
  from select_list_values_not_descended [OF a, of testState ?fn "NewScope testCatalog"
      None None "[tableRef ''users'' 31]" NilNode NilNode "[]" "[]"] e
  show ?thesis using a by (simp add: selectCountNosuch_def selectTwoConstants_def)
qed

section \<open>Cloning separates the scopes\<close>

text \<open>\<open>keeps n m m'\<close>: the store \<open>m'\<close> has every array of \<open>m\<close> below address \<open>n\<close> unchanged.\<close>

lemma sliceView_same_array:
  "arrays m' (s_ptr sl) = arrays m (s_ptr sl) \<Longrightarrow> sliceView m' sl = sliceView m sl"
  by (simp add: sliceView_def)

lemma sliceView_empty: "s_len sl = 0 \<Longrightarrow> sliceView m sl = []"
  by (simp add: sliceView_def)

lemma appendSlice_view:
  assumes "wfSlice m sl" and "appendSlice grow zero m sl x = (m', sl')"
  shows "sliceView m' sl' = sliceView m sl @ [x]" and "wfSlice m' sl'"
    and "nextFree m \<le> nextFree m'"
proof -
  show "sliceView m' sl' = sliceView m sl @ [x]"
  proof (cases "s_len sl < s_cap sl")
    case True
    with assms have len: "s_len sl < length (arrays m (s_ptr sl))"
      by (simp add: wfSlice_def)
    from True assms(2) have m': "arrays m' (s_ptr sl') = (arrays m (s_ptr sl))[s_len sl := x]"
      and l': "s_len sl' = Suc (s_len sl)"
      by (auto simp: appendSlice_def)
    from len show ?thesis
      by (simp add: sliceView_def m' l' take_Suc_conv_app_nth)
  next
    case False
    with assms(1) have full: "s_len sl = s_cap sl"
      and arr: "0 < s_cap sl \<longrightarrow> length (arrays m (s_ptr sl)) = s_cap sl"
      by (auto simp: wfSlice_def)
    then have "min (length (arrays m (s_ptr sl))) (s_len sl) = s_len sl"
      by (cases "s_cap sl") auto
    with False assms(2) show ?thesis
      by (auto simp: appendSlice_def allocArray_def sliceView_def Let_def)
  qed
  show "wfSlice m' sl'"
    using assms
    by (auto simp: appendSlice_def allocArray_def wfSlice_def sliceView_def Let_def
        split: if_splits)
  show "nextFree m \<le> nextFree m'"
    using assms(2)
    by (auto simp: appendSlice_def allocArray_def Let_def split: if_splits)
qed

lemma appendSlice_frame:
  assumes "appendSlice grow zero m sl x = (m', sl')"
    and "0 < s_cap sl \<longrightarrow> n \<le> s_ptr sl" and "n \<le> nextFree m"
  shows "\<forall>a < n. arrays m' a = arrays m a" and "0 < s_cap sl' \<longrightarrow> n \<le> s_ptr sl'"
  using assms
  by (auto simp: appendSlice_def allocArray_def Let_def split: if_splits)

lemma appendSlice_other:
  assumes "wfSlice m sl" and "appendSlice grow zero m sl x = (m', sl')"
    and "wfSlice m other" and "arrays m' (s_ptr other) = arrays m (s_ptr other) \<or> s_cap other = 0"
  shows "wfSlice m' other"
  using assms
  by (auto simp: appendSlice_def allocArray_def wfSlice_def Let_def split: if_splits)

lemma copySlice_view:
  assumes "copySlice m sl = (m', sl')"
  shows "sliceView m' sl' = sliceView m sl"
    and "wfSlice m sl \<Longrightarrow> wfSlice m' sl'"
    and "s_ptr sl' = nextFree m" and "nextFree m' = Suc (nextFree m)"
    and "a < nextFree m \<Longrightarrow> arrays m' a = arrays m a"
  using assms
  by (auto simp: copySlice_def allocArray_def sliceView_def wfSlice_def)

lemma apart_append:
  assumes "apart m0 m sl" and "appendSlice grow zero m sl x = (m', sl')"
  shows "apart m0 m' sl'" and "sliceView m' sl' = sliceView m sl @ [x]"
proof -
  from assms(1) have wf: "wfSlice m sl" and le: "nextFree m0 \<le> nextFree m"
    and own: "0 < s_cap sl \<longrightarrow> nextFree m0 \<le> s_ptr sl"
    and old: "\<forall>a < nextFree m0. arrays m a = arrays m0 a"
    by (auto simp: apart_def)
  from appendSlice_view [OF wf assms(2)]
  have v: "sliceView m' sl' = sliceView m sl @ [x]" and wf': "wfSlice m' sl'"
    and le': "nextFree m \<le> nextFree m'"
    by blast+
  from appendSlice_frame [OF assms(2) own le]
  have fr: "\<forall>a < nextFree m0. arrays m' a = arrays m a"
    and own': "0 < s_cap sl' \<longrightarrow> nextFree m0 \<le> s_ptr sl'"
    by blast+
  from old fr wf' le le' own' show "apart m0 m' sl'"
    by (auto simp: apart_def)
  from v show "sliceView m' sl' = sliceView m sl @ [x]" .
qed

lemma apart_dropLast:
  assumes "apart m0 m sl"
  shows "sliceView m sl = [] \<Longrightarrow> dropLast sl = Inl IndexOutOfRange"
    and "sliceView m sl \<noteq> [] \<Longrightarrow>
      \<exists>sl'. dropLast sl = Inr sl' \<and> apart m0 m sl' \<and> sliceView m sl' = butlast (sliceView m sl)"
proof -
  from assms have wf: "wfSlice m sl" by (simp add: apart_def)
  then have len: "length (sliceView m sl) = s_len sl"
    by (cases "s_cap sl") (auto simp: wfSlice_def sliceView_def)
  show "sliceView m sl = [] \<Longrightarrow> dropLast sl = Inl IndexOutOfRange"
    using len by (auto simp: dropLast_def)
  assume ne: "sliceView m sl \<noteq> []"
  then have "0 < length (sliceView m sl)" by simp
  with len have pos: "0 < s_len sl" by simp
  let ?sl' = "sl\<lparr>s_len := s_len sl - 1\<rparr>"
  from pos have d: "dropLast sl = Inr ?sl'" by (simp add: dropLast_def)
  from assms pos have a: "apart m0 m ?sl'" by (auto simp: apart_def wfSlice_def)
  from wf pos have "s_len sl \<le> length (arrays m (s_ptr sl))"
    by (auto simp: wfSlice_def)
  then have v: "sliceView m ?sl' = butlast (sliceView m sl)"
    by (simp add: sliceView_def butlast_take)
  from d a v show "\<exists>sl'. dropLast sl = Inr sl' \<and> apart m0 m sl'
      \<and> sliceView m sl' = butlast (sliceView m sl)"
    by blast
qed

lemma apart_copy:
  assumes "wfSlice m sl" and "copySlice m sl = (m', sl')"
  shows "apart m m' sl'" and "sliceView m' sl' = sliceView m sl"
proof -
  from assms(1) have "length (sliceView m sl) = s_len sl"
    by (cases "s_cap sl") (auto simp: wfSlice_def sliceView_def)
  with assms(2) show "apart m m' sl'"
    by (auto simp: apart_def copySlice_def allocArray_def wfSlice_def)
  from copySlice_view(1) [OF assms(2)] show "sliceView m' sl' = sliceView m sl" .
qed

lemma apart_parent:
  assumes "apart m0 m sl" and "wfSlice m0 psl"
  shows "sliceView m psl = sliceView m0 psl"
proof (cases "s_cap psl")
  case 0
  with assms(2) show ?thesis by (simp add: wfSlice_def sliceView_def)
next
  case (Suc k)
  with assms(2) have "s_ptr psl < nextFree m0" by (simp add: wfSlice_def)
  with assms(1) show ?thesis by (simp add: apart_def sliceView_def)
qed


lemma heapClone_apart:
  assumes "wfScope h p" and "heapClone h p = (h1, c)"
  shows "apartScope h h1 c" and "scopeOf h1 c = clone (scopeOf h p)"
proof -
  obtain tm ts where t: "copySlice (tableMem h) (o_tables p) = (tm, ts)" by fastforce
  obtain am as where a: "copySlice (aliasMem h) (o_aliases p) = (am, as)" by fastforce
  obtain om os where o: "copySlice (outputMem h) (o_outputNames p) = (om, os)" by fastforce
  from assms(2) t a o have h1: "h1 = \<lparr>tableMem = tm, aliasMem = am, outputMem = om\<rparr>"
    and c: "c = \<lparr>o_info = o_info p, o_tables = ts, o_aliases = as, o_outputNames = os\<rparr>"
    by (simp_all add: heapClone_def)
  from assms(1) have wf: "wfSlice (tableMem h) (o_tables p)" "wfSlice (aliasMem h) (o_aliases p)"
    "wfSlice (outputMem h) (o_outputNames p)"
    by (simp_all add: wfScope_def)
  from apart_copy [OF wf(1) t] apart_copy [OF wf(2) a] apart_copy [OF wf(3) o]
  show "apartScope h h1 c" and "scopeOf h1 c = clone (scopeOf h p)"
    by (simp_all add: apartScope_def scopeOf_def clone_def h1 c)
qed

lemma heapPushPseudoTable_step:
  assumes "apartScope h0 h s" and "heapPushPseudoTable grow h s al data = (h', s')"
  shows "apartScope h0 h' s'" and "scopeOf h' s' = pushPseudoTable (scopeOf h s) al data"
proof -
  obtain am as where a: "appendSlice grow [] (aliasMem h) (o_aliases s) al = (am, as)"
    by fastforce
  obtain tm ts where t: "appendSlice grow zeroTable (tableMem h) (o_tables s) data = (tm, ts)"
    by fastforce
  from assms(2) a t have h': "h' = h\<lparr>tableMem := tm, aliasMem := am\<rparr>"
    and s': "s' = s\<lparr>o_tables := ts, o_aliases := as\<rparr>"
    by (simp_all add: heapPushPseudoTable_def)
  from assms(1) have ap: "apart (tableMem h0) (tableMem h) (o_tables s)"
    "apart (aliasMem h0) (aliasMem h) (o_aliases s)"
    "apart (outputMem h0) (outputMem h) (o_outputNames s)"
    by (simp_all add: apartScope_def)
  from apart_append [OF ap(1) t] apart_append [OF ap(2) a] ap(3)
  show "apartScope h0 h' s'" and "scopeOf h' s' = pushPseudoTable (scopeOf h s) al data"
    by (simp_all add: apartScope_def scopeOf_def pushPseudoTable_def h' s')
qed

lemma heapPushOutputName_step:
  assumes "apartScope h0 h s" and "heapPushOutputName grow h s nm c = (h', s')"
  shows "apartScope h0 h' s'" and "scopeOf h' s' = pushOutputName (scopeOf h s) nm c"
proof -
  obtain om os where o: "appendSlice grow zeroRef (outputMem h) (o_outputNames s)
      \<lparr>ocr_name = nm, ocr_col = c\<rparr> = (om, os)"
    by fastforce
  from assms(2) o have h': "h' = h\<lparr>outputMem := om\<rparr>" and s': "s' = s\<lparr>o_outputNames := os\<rparr>"
    by (simp_all add: heapPushOutputName_def)
  from assms(1) have ap: "apart (tableMem h0) (tableMem h) (o_tables s)"
    "apart (aliasMem h0) (aliasMem h) (o_aliases s)"
    "apart (outputMem h0) (outputMem h) (o_outputNames s)"
    by (simp_all add: apartScope_def)
  from apart_append [OF ap(3) o] ap(1) ap(2)
  show "apartScope h0 h' s'" and "scopeOf h' s' = pushOutputName (scopeOf h s) nm c"
    by (simp_all add: apartScope_def scopeOf_def pushOutputName_def h' s')
qed

lemma heapPopTable_step:
  assumes "apartScope h0 h s"
  shows "case popTable (scopeOf h s) of
           Inl e \<Rightarrow> heapPopTable h s = Inl e
         | Inr s1 \<Rightarrow> (\<exists>s'. heapPopTable h s = Inr (h, s') \<and> apartScope h0 h s'
                        \<and> scopeOf h s' = s1)"
proof -
  from assms have ap: "apart (tableMem h0) (tableMem h) (o_tables s)"
    "apart (aliasMem h0) (aliasMem h) (o_aliases s)"
    "apart (outputMem h0) (outputMem h) (o_outputNames s)"
    by (simp_all add: apartScope_def)
  show ?thesis
  proof (cases "sliceView (tableMem h) (o_tables s) = []")
    case True
    with apart_dropLast(1) [OF ap(1)] show ?thesis
      by (simp add: popTable_def scopeOf_def heapPopTable_def)
  next
    case tne: False
    from apart_dropLast(2) [OF ap(1) tne] obtain ts where
      ts: "dropLast (o_tables s) = Inr ts" "apart (tableMem h0) (tableMem h) ts"
        "sliceView (tableMem h) ts = butlast (sliceView (tableMem h) (o_tables s))"
      by blast
    show ?thesis
    proof (cases "sliceView (aliasMem h) (o_aliases s) = []")
      case True
      with apart_dropLast(1) [OF ap(2)] ts(1) show ?thesis
        by (simp add: popTable_def scopeOf_def heapPopTable_def)
    next
      case ane: False
      from apart_dropLast(2) [OF ap(2) ane] obtain as where
        as: "dropLast (o_aliases s) = Inr as" "apart (aliasMem h0) (aliasMem h) as"
          "sliceView (aliasMem h) as = butlast (sliceView (aliasMem h) (o_aliases s))"
        by blast
      from tne ane ts as ap(3) show ?thesis
        by (simp add: popTable_def scopeOf_def heapPopTable_def apartScope_def)
    qed
  qed
qed

lemma heapPopOutputName_step:
  assumes "apartScope h0 h s"
  shows "case popOutputName (scopeOf h s) of
           Inl e \<Rightarrow> heapPopOutputName h s = Inl e
         | Inr s1 \<Rightarrow> (\<exists>s'. heapPopOutputName h s = Inr (h, s') \<and> apartScope h0 h s'
                        \<and> scopeOf h s' = s1)"
proof -
  from assms have ap: "apart (tableMem h0) (tableMem h) (o_tables s)"
    "apart (aliasMem h0) (aliasMem h) (o_aliases s)"
    "apart (outputMem h0) (outputMem h) (o_outputNames s)"
    by (simp_all add: apartScope_def)
  show ?thesis
  proof (cases "sliceView (outputMem h) (o_outputNames s) = []")
    case True
    with apart_dropLast(1) [OF ap(3)] show ?thesis
      by (simp add: popOutputName_def scopeOf_def heapPopOutputName_def)
  next
    case ne: False
    from apart_dropLast(2) [OF ap(3) ne] obtain os where
      os: "dropLast (o_outputNames s) = Inr os" "apart (outputMem h0) (outputMem h) os"
        "sliceView (outputMem h) os = butlast (sliceView (outputMem h) (o_outputNames s))"
      by blast
    from ne os ap(1) ap(2) show ?thesis
      by (simp add: popOutputName_def scopeOf_def heapPopOutputName_def apartScope_def)
  qed
qed

lemma heapOp_step:
  assumes "apartScope h0 h s"
  shows "case applyOp x (scopeOf h s) of
           Inl e \<Rightarrow> heapOp grow x h s = Inl e
         | Inr s1 \<Rightarrow> (\<exists>h' s'. heapOp grow x h s = Inr (h', s') \<and> apartScope h0 h' s'
                        \<and> scopeOf h' s' = s1)"
proof (cases x)
  case (PushTable schema table al)
  show ?thesis
  proof (cases "lookupTable schema table (Tables (o_info s))")
    case None
    with PushTable assms show ?thesis
      by (simp add: heapPushTable_def pushTable_def scopeOf_def)
  next
    case (Some t)
    obtain h' s' where p: "heapPushPseudoTable grow h s al t = (h', s')" by fastforce
    from heapPushPseudoTable_step [OF assms p] PushTable Some p show ?thesis
      by (simp add: heapPushTable_def pushTable_def pushPseudoTable_def scopeOf_def)
  qed
next
  case (PushPseudoTable al data)
  obtain h' s' where p: "heapPushPseudoTable grow h s al data = (h', s')" by fastforce
  from heapPushPseudoTable_step [OF assms p] PushPseudoTable p show ?thesis by simp
next
  case PopTable
  with heapPopTable_step [OF assms] show ?thesis
    by (auto split: sum.splits)
next
  case (PushOutputName nm c)
  obtain h' s' where p: "heapPushOutputName grow h s nm c = (h', s')" by fastforce
  from heapPushOutputName_step [OF assms p] PushOutputName p show ?thesis by simp
next
  case PopOutputName
  with heapPopOutputName_step [OF assms] show ?thesis
    by (auto split: sum.splits)
qed

lemma heapOps_run:
  "apartScope h0 h s \<Longrightarrow>
   (case applyOps xs (scopeOf h s) of
      Inl e \<Rightarrow> heapOps grow xs h s = Inl e
    | Inr s1 \<Rightarrow> (\<exists>h' s'. heapOps grow xs h s = Inr (h', s') \<and> apartScope h0 h' s'
                   \<and> scopeOf h' s' = s1))"
proof (induction xs arbitrary: h s)
  case Nil
  then show ?case by simp
next
  case (Cons x xs)
  show ?case
  proof (cases "applyOp x (scopeOf h s)")
    case (Inl e)
    with heapOp_step [OF Cons.prems, where x = x and grow = grow] show ?thesis by simp
  next
    case (Inr s1)
    with heapOp_step [OF Cons.prems, where x = x and grow = grow] obtain h' s' where
      st: "heapOp grow x h s = Inr (h', s')" "apartScope h0 h' s'" "scopeOf h' s' = s1"
      by auto
    from Cons.IH [OF st(2)] Inr st show ?thesis
      by (simp split: sum.splits)
  qed
qed

lemma apartScope_parent:
  assumes "apartScope h0 h s" and "wfScope h0 p"
  shows "scopeOf h p = scopeOf h0 p"
proof -
  from assms have "sliceView (tableMem h) (o_tables p) = sliceView (tableMem h0) (o_tables p)"
    by (auto simp: apartScope_def wfScope_def intro: apart_parent)
  moreover from assms
  have "sliceView (aliasMem h) (o_aliases p) = sliceView (aliasMem h0) (o_aliases p)"
    by (auto simp: apartScope_def wfScope_def intro: apart_parent)
  moreover from assms
  have "sliceView (outputMem h) (o_outputNames p) = sliceView (outputMem h0) (o_outputNames p)"
    by (auto simp: apartScope_def wfScope_def intro: apart_parent)
  ultimately show ?thesis by (simp add: scopeOf_def)
qed


text \<open>
  Claim C9. The scope of a lateral sub-select is a clone: its three slices are
  copied into arrays of their own and its catalog is the parent's. Whatever
  \<open>pushTable\<close>, \<open>pushPseudoTable\<close>, \<open>popTable\<close>, \<open>pushOutputName\<close> and
  \<open>popOutputName\<close> calls then run on the clone, in a heap where slices share arrays
  as Go's do, the parent's tables, aliases and output names read as before, and the
  clone goes through the scopes that the same calls give on a copy of the parent's
  scope. When the from clause of \<open>checkSelect\<close> handles a lateral sub-select and
  returns, the parent scope has only been extended by the push of the pseudo-table.
\<close>

theorem lateral_clone_leaves_parent:
  assumes "wfScope h p" and "heapClone h p = (h1, c)"
  shows "scopeOf h1 c = clone (scopeOf h p) \<and> o_info c = o_info p
       \<and> scopeOf h1 p = scopeOf h p
       \<and> (\<forall>xs h2 c2. heapOps grow xs h1 c = Inr (h2, c2) \<longrightarrow>
             scopeOf h2 p = scopeOf h p
             \<and> applyOps xs (clone (scopeOf h p)) = Inr (scopeOf h2 c2))
       \<and> (\<forall>subquery al n errs n' errs' s s'.
             fromLoop state fn s [RangeSubselect True subquery al] n errs = Inr ((n', errs'), s')
             \<longrightarrow> (\<exists>aliasname data. s' = pushPseudoTable s aliasname data))"
proof -
  from heapClone_apart [OF assms] have ap: "apartScope h h1 c"
    and cl: "scopeOf h1 c = clone (scopeOf h p)"
    by blast+
  from assms(2) have inf: "o_info c = o_info p"
    by (auto simp: heapClone_def split: prod.splits)
  from apartScope_parent [OF ap assms(1)] have p1: "scopeOf h1 p = scopeOf h p" .
  have run: "scopeOf h2 p = scopeOf h p \<and> applyOps xs (clone (scopeOf h p)) = Inr (scopeOf h2 c2)"
    if r: "heapOps grow xs h1 c = Inr (h2, c2)" for xs h2 c2
  proof (cases "applyOps xs (scopeOf h1 c)")
    case (Inl e)
    with heapOps_run [OF ap, where xs = xs and grow = grow] r show ?thesis by simp
  next
    case (Inr s1)
    with heapOps_run [OF ap, where xs = xs and grow = grow] r
    have "apartScope h h2 c2" and "scopeOf h2 c2 = s1" by auto
    with Inr cl apartScope_parent [OF _ assms(1)] show ?thesis by simp
  qed
  have sub: "\<exists>aliasname data. s' = pushPseudoTable s aliasname data"
    if f: "fromLoop state fn s [RangeSubselect True subquery al] n errs = Inr ((n', errs'), s')"
    for subquery al n errs n' errs' s s'
    using f
    by (auto split: option.splits Node.splits sum.splits prod.splits)
  from cl inf p1 run sub show ?thesis by blast
qed

theorem lateral_clone_leaves_parent_witness:
  "wfScope parentHeap parentObj
   \<and> scopeOf parentHeap parentObj = aliasedUsersScope\<lparr>aliases := ['''']\<rparr>
   \<and> (\<exists>h2 c2. heapOps (\<lambda>n. 2 * n) lateralOps (fst (heapClone parentHeap parentObj))
          (snd (heapClone parentHeap parentObj)) = Inr (h2, c2)
        \<and> scopeOf h2 parentObj = scopeOf parentHeap parentObj
        \<and> scopeOf h2 c2 = scopeOf parentHeap parentObj)"
proof -
  have wf: "wfScope parentHeap parentObj"
    by (simp add: wfScope_def wfSlice_def parentHeap_def parentObj_def)
  have v: "scopeOf parentHeap parentObj = aliasedUsersScope\<lparr>aliases := ['''']\<rparr>"
    by (simp add: scopeOf_def sliceView_def parentHeap_def parentObj_def aliasedUsersScope_def)
  obtain h1 c where cl: "heapClone parentHeap parentObj = (h1, c)" by fastforce
  have a: "applyOps lateralOps (clone (scopeOf parentHeap parentObj))
      = Inr (scopeOf parentHeap parentObj)"
    by (simp add: v lateralOps_def clone_def aliasedUsersScope_def pushTable_def testCatalog_def
        usersTable_def videosTable_def commentsTable_def pushOutputName_def popOutputName_def
        popTable_def)
  from heapClone_apart [OF wf cl] have ap: "apartScope parentHeap h1 c"
    and sc: "scopeOf h1 c = clone (scopeOf parentHeap parentObj)" by blast+
  from heapOps_run [OF ap, where xs = lateralOps and grow = "\<lambda>n. 2 * n"] a sc
  obtain h2 c2 where r: "heapOps (\<lambda>n. 2 * n) lateralOps h1 c = Inr (h2, c2)"
    by auto
  from lateral_clone_leaves_parent [OF wf cl, of "\<lambda>n. 2 * n"] r a
  have "scopeOf h2 parentObj = scopeOf parentHeap parentObj
      \<and> scopeOf h2 c2 = scopeOf parentHeap parentObj"
    by auto
  with wf v r cl show ?thesis by auto
qed

section \<open>Properties of the call sites\<close>

lemma argTypesFrom_types:
  "argTypesFrom shown i args acc = Inr ts \<Longrightarrow>
   \<exists>new. ts = acc @ new \<and> length new = length args
     \<and> map (\<lambda>a. map_option tv_Type (typesOf a)) args = map Some new"
proof (induction args arbitrary: i acc)
  case Nil
  then show ?case by simp
next
  case (Cons a args)
  from Cons.prems obtain t where t: "typesOf a = Some t"
    by (cases "typesOf a") auto
  with Cons.prems have "argTypesFrom shown (i + 1) args (acc @ [tv_Type t]) = Inr ts"
    by simp
  from Cons.IH [OF this] obtain new where
    "ts = (acc @ [tv_Type t]) @ new" "length new = length args"
    "map (\<lambda>a. map_option tv_Type (typesOf a)) args = map Some new"
    by blast
  with t have "ts = acc @ (tv_Type t # new) \<and> length (tv_Type t # new) = length (a # args)
      \<and> map (\<lambda>a. map_option tv_Type (typesOf a)) (a # args) = map Some (tv_Type t # new)"
    by simp
  then show ?case by blast
qed

lemma argTypesFrom_unknown:
  "\<exists>a \<in> set args. typesOf a = None \<Longrightarrow>
   \<exists>j a. argTypesFrom shown i args acc = Inl \<lparr>w_Err = ArgTypeUnknown (shown j), w_Pos = posOf a\<rparr>
     \<and> a \<in> set args \<and> typesOf a = None"
proof (induction args arbitrary: i acc)
  case Nil
  then show ?case by simp
next
  case (Cons a args)
  show ?case
  proof (cases "typesOf a")
    case None
    then have "argTypesFrom shown i (a # args) acc
        = Inl \<lparr>w_Err = ArgTypeUnknown (shown i), w_Pos = posOf a\<rparr> \<and> a \<in> set (a # args)
        \<and> typesOf a = None"
      by simp
    then show ?thesis by blast
  next
    case (Some t)
    with Cons.prems have "\<exists>a \<in> set args. typesOf a = None" by auto
    from Cons.IH [OF this, of "i + 1" "acc @ [tv_Type t]"] Some show ?thesis
      by auto
  qed
qed

text \<open>
  A \<open>Call\<close> that \<open>tagCall\<close> returns comes from a whitelisted call expression inside the
  tagged node, and has the types of the arguments after the sql argument of that
  call, one for each and in call order.
\<close>

lemma tagWhitelisted_site:
  assumes "getSQLFunction f = Inr (Some fn)"
    and "tagWhitelisted fn args pos = Inr (Some call, w)"
  shows "taggedSite call (CallExpr f args tv pos)"
proof -
  let ?off = "if HasContext fn then 1 else 0 :: nat"
  from assms(2) have len: "?off < length args"
    by (auto simp: tagWhitelisted_def Let_def split: if_splits)
  from assms(2) len obtain sql where sql: "sqlArgument (args ! ?off) = Inr (Inr sql)"
    by (cases "sqlArgument (args ! ?off)")
       (auto simp: tagWhitelisted_def Let_def split: if_splits sum.splits)
  from assms(2) len sql obtain ts where
    ts: "argTypesFrom (\<lambda>i. i + 1) (?off + 1) (drop (?off + 1) args) [] = Inr ts"
    by (cases "argTypesFrom (\<lambda>i. i + 1) (?off + 1) (drop (?off + 1) args) []")
       (auto simp: tagWhitelisted_def Let_def split: if_splits)
  from assms(2) len sql ts have call: "call = \<lparr>SQL = sql, ArgTypes = ts, Package = [], Pos = pos\<rparr>"
    by (auto simp: tagWhitelisted_def Let_def split: if_splits)
  from argTypesFrom_types [OF ts] have
    "length ts = length args - (?off + 1)"
    "map (\<lambda>a. map_option tv_Type (typesOf a)) (drop (?off + 1) args) = map Some ts"
    by auto
  with len sql call assms(1) show ?thesis
    by (simp add: taggedSite_def argsAfter_def)
qed

lemma tagCall_site_expr:
  "\<forall>call w. tagCallExpr e = Inr (Some call, w) \<longrightarrow>
     (\<exists>site \<in> set (subExprs e). taggedSite call site)"
  and tagCall_site_args:
  "\<forall>call w. tagCallArgs es = Inr (Some call, w) \<longrightarrow>
     (\<exists>site \<in> set (subExprsOf es). taggedSite call site)"
proof (induction e and es rule: tagCallExpr_tagCallArgs.induct)
  case (1 f args tv pos)
  show ?case
  proof (intro allI impI)
    fix call w
    assume a: "tagCallExpr (CallExpr f args tv pos) = Inr (Some call, w)"
    then obtain fno where g: "getSQLFunction f = Inr fno"
      by (cases "getSQLFunction f") auto
    show "\<exists>site \<in> set (subExprs (CallExpr f args tv pos)). taggedSite call site"
    proof (cases fno)
      case (Some fn)
      with a g have "tagWhitelisted fn args pos = Inr (Some call, w)" by simp
      from tagWhitelisted_site [OF _ this, of f tv] g Some show ?thesis by simp
    next
      case None
      show ?thesis
      proof (cases f)
        case (Ident n ob t p)
        with a g None have r: "tagCallArgs args = Inr (Some call, w)" by simp
        from "1.IH"(1) [OF g None Ident] r show ?thesis by auto
      next
        case (CallExpr f2 args2 tv2 pos2)
        with g show ?thesis by (simp add: getSQLFunction_def)
      next
        case (SelectorExpr x sel stv spos)
        note f = SelectorExpr
        show ?thesis
        proof (cases x)
          case (Ident n ob t p)
          with a g None f have r: "tagCallArgs args = Inr (Some call, w)" by simp
          from "1.IH"(3) [OF g None f Ident] r show ?thesis by auto
        next
          case (CallExpr f2 args2 tv2 pos2)
          with a g None f have "tagCallExpr x = Inr (Some call, w)" by simp
          with "1.IH"(4) [OF g None f CallExpr] obtain site where
            "site \<in> set (subExprs x)" "taggedSite call site" by blast
          with f show ?thesis by auto
        next
          case (SelectorExpr x2 sel2 stv2 spos2)
          with a g None f have r: "tagCallArgs args = Inr (Some call, w)" by simp
          from "1.IH"(5) [OF g None f SelectorExpr] r show ?thesis by auto
        next
          case (OtherExpr ch t p)
          with a g None f have r: "tagCallArgs args = Inr (Some call, w)" by simp
          from "1.IH"(6) [OF g None f OtherExpr] r show ?thesis by auto
        qed
      next
        case (OtherExpr ch t p)
        with g show ?thesis by (simp add: getSQLFunction_def)
      qed
    qed
  qed
next
  case (2 name obj tv pos)
  then show ?case by simp
next
  case (3 x sel tv pos)
  then show ?case by simp
next
  case (4 children tv pos)
  then show ?case by simp
next
  case 5
  then show ?case by simp
next
  case (6 fnArg fnArgs)
  show ?case
  proof (intro allI impI)
    fix call w
    assume a: "tagCallArgs (fnArg # fnArgs) = Inr (Some call, w)"
    then obtain c1 w1 where r: "tagCallExpr fnArg = Inr (c1, w1)"
      by (cases "tagCallExpr fnArg") auto
    show "\<exists>site \<in> set (subExprsOf (fnArg # fnArgs)). taggedSite call site"
    proof (cases c1)
      case (Some c)
      with a r have "c = call" by simp
      with "6.IH"(1) r Some show ?thesis by auto
    next
      case None
      with a r have "tagCallArgs fnArgs = Inr (Some call, w)" by simp
      with "6.IH"(2) [OF r refl None] show ?thesis by auto
    qed
  qed
qed

lemma tagCall_site:
  "tagCall node = Inr (Some call, w) \<Longrightarrow> \<exists>site \<in> set (nodeExprs node). taggedSite call site"
proof (induction node rule: tagCall.induct)
  case (7 rhs rest)
  with tagCall_site_expr [of rhs] show ?case by auto
qed (use tagCall_site_expr in auto)

text \<open>
  The constant that \<open>tagCallsByConstant\<close> finds in the arguments of a call is a tagged
  one, named by the argument at the index found.
\<close>

lemma matchConstant_found:
  "matchConstant tagged name obj = Inr (Some c) \<Longrightarrow>
   c \<in> set tagged \<and> namesConstant c (Ident name obj tv pos)"
  by (induction tagged)
     (auto simp: namesConstant_def split: if_splits option.splits Decl.splits)

lemma findConstant_found:
  "findConstant tagged args i found = Inr (Some (c, k)) \<Longrightarrow>
   found = Some (c, k) \<or>
   (i \<le> k \<and> k < i + length args \<and> c \<in> set tagged \<and> namesConstant c (args ! (k - i)))"
proof (induction args arbitrary: i found)
  case Nil
  then show ?case by simp
next
  case (Cons a args)
  show ?case
  proof (cases "\<exists>name obj tv pos c'. a = Ident name obj tv pos
      \<and> matchConstant tagged name obj = Inr (Some c')")
    case True
    then obtain name obj tv pos c' where a: "a = Ident name obj tv pos"
      and m: "matchConstant tagged name obj = Inr (Some c')" by blast
    with Cons.prems have "findConstant tagged args (i + 1) (Some (c', i)) = Inr (Some (c, k))"
      by simp
    from Cons.IH [OF this] show ?thesis
    proof
      assume "Some (c', i) = Some (c, k)"
      with matchConstant_found [OF m, of tv pos] a show ?thesis by auto
    next
      assume later: "i + 1 \<le> k \<and> k < i + 1 + length args \<and> c \<in> set tagged
        \<and> namesConstant c (args ! (k - (i + 1)))"
      then have "(a # args) ! (k - i) = args ! (k - (i + 1))"
        by (simp add: nth_Cons')
      with later show ?thesis by auto
    qed
  next
    case False
    with Cons.prems have "findConstant tagged args (i + 1) found = Inr (Some (c, k))"
      by (auto split: Expr.splits sum.splits option.splits)
    from Cons.IH [OF this] show ?thesis
    proof
      assume "found = Some (c, k)"
      then show ?thesis by simp
    next
      assume later: "i + 1 \<le> k \<and> k < i + 1 + length args \<and> c \<in> set tagged
        \<and> namesConstant c (args ! (k - (i + 1)))"
      then have "(a # args) ! (k - i) = args ! (k - (i + 1))"
        by (simp add: nth_Cons')
      with later show ?thesis by auto
    qed
  qed
qed

text \<open>
  Where the last argument that names a tagged constant stands at the position of the
  sql argument, the \<open>Call\<close> that the visitor of \<open>tagCallsByConstant\<close> records has the
  types of the arguments after the sql argument.
\<close>

lemma visitCall_site_at_sql_position:
  assumes "visitCall tagged f args pos = Inr (descend, cs, ws)" and "call \<in> set cs"
    and "findConstant tagged args 0 None = Inr (Some (c, k))"
    and "getSQLFunction f = Inr (Some fn)"
    and "k = (if HasContext fn then 1 else 0)"
  shows "constantSite tagged call (CallExpr f args tv pos)"
proof -
  note fc = assms(3) and g = assms(4)
  from assms(1,2) fc g obtain ts where
    ts: "argTypesFrom (\<lambda>i. i) (k + 1) (drop (k + 1) args) [] = Inr ts"
    by (cases "argTypesFrom (\<lambda>i. i) (k + 1) (drop (k + 1) args) []")
       (auto simp: visitCall_def)
  from assms(1,2) fc g ts have
    call: "call = \<lparr>SQL = c_Val c, ArgTypes = ts, Package = [], Pos = pos\<rparr>"
    by (auto simp: visitCall_def)
  from findConstant_found [OF fc] have k: "k < length args" "c \<in> set tagged"
    "namesConstant c (args ! k)"
    by auto
  from k(2,3) call have "list_ex (\<lambda>c. namesConstant c (args ! k) \<and> SQL call = c_Val c) tagged"
    by (auto simp: list_ex_iff)
  moreover from argTypesFrom_types [OF ts] have
    "length ts = length args - (k + 1)"
    "map (\<lambda>a. map_option tv_Type (typesOf a)) (drop (k + 1) args) = map Some ts"
    by auto
  ultimately show ?thesis
    using g k(1) call assms(5) by (simp add: constantSite_def argsAfter_def)
qed

text \<open>
  In \<open>tagCall\<close>, an argument after the sql argument without type information gives a
  warning and no \<open>Call\<close>.
\<close>

lemma tagWhitelisted_unknown:
  assumes "\<exists>a \<in> set (drop ((if HasContext fn then 1 else 0) + 1) args). typesOf a = None"
    and "tagWhitelisted fn args pos = Inr r"
  shows "fst r = None \<and> snd r \<noteq> None"
proof -
  let ?off = "if HasContext fn then 1 else 0 :: nat"
  from argTypesFrom_unknown [OF assms(1), of "\<lambda>i. i + 1" "?off + 1" "[]"]
  obtain w where "argTypesFrom (\<lambda>i. i + 1) (?off + 1) (drop (?off + 1) args) [] = Inl w"
    by blast
  with assms(2) show ?thesis
    by (auto simp: tagWhitelisted_def Let_def split: if_splits sum.splits)
qed

text \<open>
  The calls of lines 77 and 84 of \<open>testpackage/main.go\<close>, with the argument types that
  \<open>TestFindTaggedCalls\<close> expects, and a call whose argument after the sql argument has
  no type information.
\<close>

lemma call_site_examples:
  "tagCall scanOfQueryRow =
     Inr (Some \<lparr>SQL = ''select * from logs where id = $1;'', ArgTypes = [''int''], Package = [],
            Pos = at 77 8\<rparr>, None)
   \<and> tagCallsByConstant [scanOfQueryRowContext] [twoConst] =
     Inr ([\<lparr>SQL = ''select * from users;/'', ArgTypes = [''int''], Package = [],
             Pos = at 84 2\<rparr>], [])
   \<and> constantSite [twoConst] \<lparr>SQL = ''select * from users;/'', ArgTypes = [''int''],
        Package = [], Pos = at 84 2\<rparr> queryRowContextCall
   \<and> tagCallExpr untypedExec = Inr (None, Some \<lparr>w_Err = ArgTypeUnknown 2, w_Pos = at 90 15\<rparr>)
   \<and> tagNode (ExprStmt untypedExec) (at 90 2) =
     Inr ([], [\<lparr>w_Err = WarnError (at 90 15) (ArgTypeUnknown 2), w_Pos = at 90 2\<rparr>,
               \<lparr>w_Err = NothingAfterTag, w_Pos = at 90 2\<rparr>])
   \<and> tagCallsByConstant [untypedExec] [twoConst] =
     Inr ([], [\<lparr>w_Err = ArgTypeUnknown 1, w_Pos = at 90 15\<rparr>])"
proof -
  have t1: "tagCall scanOfQueryRow =
     Inr (Some \<lparr>SQL = ''select * from logs where id = $1;'', ArgTypes = [''int''], Package = [],
            Pos = at 77 8\<rparr>, None)"
    by (simp add: scanOfQueryRow_def queryRowCall_def getSQLFunction_def functionWhitelist_def
        dbSel_def tagWhitelisted_def sqlArgument_def stringLit_def constString_def StringVal_def
        idIdent_def typed_def)
  have t2: "tagCallsByConstant [scanOfQueryRowContext] [twoConst] =
     Inr ([\<lparr>SQL = ''select * from users;/'', ArgTypes = [''int''], Package = [],
             Pos = at 84 2\<rparr>], [])"
    by (simp add: tagCallsByConstant_def scanOfQueryRowContext_def visitCall_def
        queryRowContextCall_def getSQLFunction_def functionWhitelist_def dbSel_def
        twoIdent_def twoSpec_def twoConst_def idIdent_def typed_def)
  have s2: "constantSite [twoConst] \<lparr>SQL = ''select * from users;/'', ArgTypes = [''int''],
        Package = [], Pos = at 84 2\<rparr> queryRowContextCall"
    by (simp add: queryRowContextCall_def constantSite_def argsAfter_def namesConstant_def
        getSQLFunction_def functionWhitelist_def dbSel_def twoIdent_def twoSpec_def
        twoConst_def idIdent_def typed_def)
  have t3: "tagCallExpr untypedExec =
      Inr (None, Some \<lparr>w_Err = ArgTypeUnknown 2, w_Pos = at 90 15\<rparr>)"
    by (simp add: untypedExec_def getSQLFunction_def functionWhitelist_def dbSel_def
        tagWhitelisted_def sqlArgument_def twoIdent_def twoSpec_def constString_def
        StringVal_def)
  have t4: "tagNode (ExprStmt untypedExec) (at 90 2) =
     Inr ([], [\<lparr>w_Err = WarnError (at 90 15) (ArgTypeUnknown 2), w_Pos = at 90 2\<rparr>,
               \<lparr>w_Err = NothingAfterTag, w_Pos = at 90 2\<rparr>])"
    by (simp add: tagNode_def t3)
  have t5: "tagCallsByConstant [untypedExec] [twoConst] =
     Inr ([], [\<lparr>w_Err = ArgTypeUnknown 1, w_Pos = at 90 15\<rparr>])"
    by (simp add: tagCallsByConstant_def untypedExec_def visitCall_def getSQLFunction_def
        functionWhitelist_def dbSel_def twoIdent_def twoSpec_def twoConst_def)
  from t1 t2 s2 t3 t4 t5 show ?thesis by simp
qed

text \<open>
  Claim C8, evaluated on the code. In \<open>db.Exec(`update users set name = $1;`, two)\<close>
  the sql argument is the literal, and the tagged constant \<open>two\<close> is the one
  argument after it. \<open>tagCall\<close> on this call gives the literal as the sql and the one
  argument type \<open>string\<close>. \<open>tagCallsByConstant\<close> records a \<open>Call\<close> for it whose sql is
  the value of \<open>two\<close> and whose argument types are empty: it takes the last argument
  that names a tagged constant for the sql argument, wherever that argument stands.
  Likewise \<open>db.Exec(two, two, id)\<close> gets the argument types \<open>[int]\<close>, where the
  arguments after the sql argument have the types \<open>[string, int]\<close>, as \<open>tagCall\<close>
  reports them.
\<close>

theorem rescan_takes_last_tagged_constant_as_sql:
  "tagCallsByConstant [execLiteralTwo] [twoConst] =
     Inr ([\<lparr>SQL = ''select * from users;/'', ArgTypes = [], Package = [], Pos = at 112 2\<rparr>], [])
   \<and> \<not> list_ex (constantSite [twoConst]
            \<lparr>SQL = ''select * from users;/'', ArgTypes = [], Package = [], Pos = at 112 2\<rparr>)
          (subExprsOf [execLiteralTwo])
   \<and> tagCallExpr execLiteralTwo =
     Inr (Some \<lparr>SQL = ''update users set name = $1;'', ArgTypes = [''string''], Package = [],
            Pos = at 112 2\<rparr>, None)
   \<and> taggedSite \<lparr>SQL = ''update users set name = $1;'', ArgTypes = [''string''], Package = [],
        Pos = at 112 2\<rparr> execLiteralTwo
   \<and> tagCallsByConstant [execTwoTwoId] [twoConst] =
     Inr ([\<lparr>SQL = ''select * from users;/'', ArgTypes = [''int''], Package = [],
             Pos = at 114 2\<rparr>], [])
   \<and> \<not> list_ex (constantSite [twoConst]
            \<lparr>SQL = ''select * from users;/'', ArgTypes = [''int''], Package = [],
              Pos = at 114 2\<rparr>)
          (subExprsOf [execTwoTwoId])
   \<and> tagCallExpr execTwoTwoId =
     Inr (Some \<lparr>SQL = ''select * from users;/'', ArgTypes = [''string'', ''int''], Package = [],
            Pos = at 114 2\<rparr>, None)
   \<and> constantSite [twoConst]
        \<lparr>SQL = ''select * from users;/'', ArgTypes = [''string'', ''int''], Package = [],
          Pos = at 114 2\<rparr> execTwoTwoId"
proof -
  have r1: "tagCallsByConstant [execLiteralTwo] [twoConst] =
     Inr ([\<lparr>SQL = ''select * from users;/'', ArgTypes = [], Package = [], Pos = at 112 2\<rparr>], [])"
    by (simp add: tagCallsByConstant_def execLiteralTwo_def visitCall_def getSQLFunction_def
        functionWhitelist_def dbSel_def stringLit_def twoIdent_def twoSpec_def twoConst_def)
  have n1: "\<not> list_ex (constantSite [twoConst]
            \<lparr>SQL = ''select * from users;/'', ArgTypes = [], Package = [], Pos = at 112 2\<rparr>)
          (subExprsOf [execLiteralTwo])"
    by (simp add: execLiteralTwo_def constantSite_def argsAfter_def getSQLFunction_def
        functionWhitelist_def dbSel_def stringLit_def twoIdent_def)
  have t1: "tagCallExpr execLiteralTwo =
     Inr (Some \<lparr>SQL = ''update users set name = $1;'', ArgTypes = [''string''], Package = [],
            Pos = at 112 2\<rparr>, None)"
    by (simp add: execLiteralTwo_def getSQLFunction_def functionWhitelist_def dbSel_def
        tagWhitelisted_def sqlArgument_def stringLit_def constString_def StringVal_def
        twoIdent_def)
  have s1: "taggedSite \<lparr>SQL = ''update users set name = $1;'', ArgTypes = [''string''],
        Package = [], Pos = at 112 2\<rparr> execLiteralTwo"
    by (simp add: execLiteralTwo_def taggedSite_def argsAfter_def getSQLFunction_def
        functionWhitelist_def dbSel_def sqlArgument_def stringLit_def constString_def
        StringVal_def twoIdent_def)
  have r2: "tagCallsByConstant [execTwoTwoId] [twoConst] =
     Inr ([\<lparr>SQL = ''select * from users;/'', ArgTypes = [''int''], Package = [],
             Pos = at 114 2\<rparr>], [])"
    by (simp add: tagCallsByConstant_def execTwoTwoId_def visitCall_def getSQLFunction_def
        functionWhitelist_def dbSel_def twoIdent_def twoSpec_def twoConst_def idIdent_def
        typed_def)
  have n2: "\<not> list_ex (constantSite [twoConst]
            \<lparr>SQL = ''select * from users;/'', ArgTypes = [''int''], Package = [],
              Pos = at 114 2\<rparr>)
          (subExprsOf [execTwoTwoId])"
    by (simp add: execTwoTwoId_def constantSite_def argsAfter_def getSQLFunction_def
        functionWhitelist_def dbSel_def twoIdent_def idIdent_def)
  have t2: "tagCallExpr execTwoTwoId =
     Inr (Some \<lparr>SQL = ''select * from users;/'', ArgTypes = [''string'', ''int''], Package = [],
            Pos = at 114 2\<rparr>, None)"
    by (simp add: execTwoTwoId_def getSQLFunction_def functionWhitelist_def dbSel_def
        tagWhitelisted_def sqlArgument_def constString_def StringVal_def twoIdent_def
        twoSpec_def idIdent_def typed_def)
  have s2: "constantSite [twoConst]
        \<lparr>SQL = ''select * from users;/'', ArgTypes = [''string'', ''int''], Package = [],
          Pos = at 114 2\<rparr> execTwoTwoId"
    by (simp add: execTwoTwoId_def constantSite_def argsAfter_def namesConstant_def
        getSQLFunction_def functionWhitelist_def dbSel_def twoIdent_def twoSpec_def
        twoConst_def idIdent_def typed_def)
  from r1 n1 t1 s1 r2 n2 t2 s2 show ?thesis by simp
qed

end
